theory Spec2Isabelle
  imports Complex_Main "HOL-Library.Word" "HOL-Library.Sublist"
begin

unbundle bit_operations_syntax

section \<open>Data model (src/memory/types.ts)\<close>

text \<open>
  JavaScript numbers are modelled as real numbers: rounding, infinities and NaN of IEEE
  doubles are outside the model, except for the one place where the source can read an
  array out of range (see \<open>cosineSimilarity\<close>), whose NaN result is \<open>None\<close>.
  A JavaScript string is a list of code units below 256 (the Latin-1 range), which is
  what \<^typ>\<open>string\<close> holds. Timestamps (\<open>datetime('now')\<close>) are natural numbers
  handed to each operation as \<open>now\<close>; identifiers drawn by \<open>nanoid()\<close> are handed in likewise.
\<close>

datatype MemoryType = Constraint | Decision | Heuristic

datatype MemorySource = SourceUser | SourceAuto | SourceGit

datatype FrictionEventType = Iteration | Correction | Revert | Rejection | Acceptance

datatype Severity = SevError | SevWarning

datatype Strength = Strong | Moderate | Weak

text \<open>The \<open>metadata\<close> column: the JSON object written by the add operations. A key that
  \<open>JSON.stringify\<close> drops (value \<open>undefined\<close>) is \<open>None\<close>.\<close>

record Metadata =
  md_scope :: "string option"
  md_severity :: "Severity option"
  md_alternatives :: "string list option"
  md_rationale :: "string option"
  md_relatedFiles :: "string list option"
  md_applicableWhen :: "string option"
  md_strength :: "Strength option"

definition empty_metadata :: Metadata where
  "empty_metadata = \<lparr> md_scope = None, md_severity = None, md_alternatives = None,
     md_rationale = None, md_relatedFiles = None, md_applicableWhen = None,
     md_strength = None \<rparr>"

text \<open>A row of table \<open>memory_items\<close> (interface \<open>MemoryRow\<close>); column \<open>active\<close> holds 0 or 1.\<close>

record MemoryRow =
  row_id :: string
  row_type :: MemoryType
  row_content :: string
  row_context :: "string option"
  row_source :: MemorySource
  friction_score :: real
  created_at :: nat
  updated_at :: nat
  row_active :: bool
  row_metadata :: Metadata

record FrictionEventRow =
  fe_id :: string
  fe_memory_id :: string
  fe_event_type :: FrictionEventType
  fe_delta :: real
  fe_context :: "string option"
  fe_created_at :: nat

text \<open>The tagged union \<open>MemoryItem = Constraint | Decision | Heuristic\<close>: the fields of
  \<open>BaseMemory\<close> and the variant's own fields, the tag being the constructor.\<close>

datatype MemoryDetails =
    ConstraintD "string option" Severity
  | DecisionD "string list option" string "string list option"
  | HeuristicD "string option" Strength

record MemoryItem =
  mem_id :: string
  mem_content :: string
  mem_context :: "string option"
  mem_source :: MemorySource
  frictionScore :: real
  createdAt :: nat
  updatedAt :: nat
  mem_active :: bool
  mem_details :: MemoryDetails

fun details_type :: "MemoryDetails \<Rightarrow> MemoryType" where
  "details_type (ConstraintD _ _) = Constraint"
| "details_type (DecisionD _ _ _) = Decision"
| "details_type (HeuristicD _ _) = Heuristic"

definition mem_type :: "MemoryItem \<Rightarrow> MemoryType" where
  "mem_type m = details_type (mem_details m)"

record CreateConstraintInput =
  cc_content :: string
  cc_context :: "string option"
  cc_source :: "MemorySource option"
  cc_scope :: "string option"
  cc_severity :: "Severity option"

record CreateDecisionInput =
  cd_content :: string
  cd_context :: "string option"
  cd_source :: "MemorySource option"
  cd_alternatives :: "string list option"
  cd_rationale :: string
  cd_relatedFiles :: "string list option"

record CreateHeuristicInput =
  ch_content :: string
  ch_context :: "string option"
  ch_source :: "MemorySource option"
  ch_applicableWhen :: "string option"
  ch_strength :: "Strength option"

section \<open>Memory store (src/memory/store.ts)\<close>

text \<open>
  The database: table \<open>memory_items\<close> in insertion order, table \<open>memory_embeddings\<close>
  keyed by its primary key, and the log \<open>friction_events\<close> in insertion order. An embedding
  blob is the list of its float values. The model follows the statements the source
  prepares, the checks the source makes itself and the constraints of the schema that
  these statements can meet: the primary keys, and the foreign keys
  \<open>memory_embeddings.id\<close> and \<open>friction_events.memory_id\<close>, which reference
  \<open>memory_items(id)\<close> and which the engine enforces (the source never switches the
  enforcement off): an insert whose reference names no row of \<open>memory_items\<close> is refused.
\<close>

text \<open>A \<open>Float32Array\<close> is a view on an \<open>ArrayBuffer\<close>: the buffer (as the list of its
  floats, its byte length being a multiple of 4), the offset of the view and its length,
  both counted in floats. The view lies inside its buffer. \<open>new Float32Array(n)\<close> and
  \<open>new Float32Array(values)\<close> make a view that spans a buffer of its own.\<close>

record Float32Array =
  fa_buffer :: "real list"
  fa_offset :: nat
  fa_length :: nat

definition valid_view :: "Float32Array \<Rightarrow> bool" where
  "valid_view a = (fa_offset a + fa_length a \<le> length (fa_buffer a))"

definition view_elements :: "Float32Array \<Rightarrow> real list" where
  "view_elements a = take (fa_length a) (drop (fa_offset a) (fa_buffer a))"

definition float32array :: "real list \<Rightarrow> Float32Array" where
  "float32array values = \<lparr> fa_buffer = values, fa_offset = 0, fa_length = length values \<rparr>"

definition spans_buffer :: "Float32Array \<Rightarrow> bool" where
  "spans_buffer a = (fa_offset a = 0 \<and> fa_length a = length (fa_buffer a))"

record Store =
  memory_items :: "MemoryRow list"
  memory_embeddings :: "string \<rightharpoonup> real list"
  friction_events :: "FrictionEventRow list"

datatype StoreError =
    DimensionMismatch nat nat
  | PrimaryKeyViolation
  | ForeignKeyViolation

definition EMBEDDING_DIM :: nat where
  "EMBEDDING_DIM = 384"

text \<open>The database after \<open>runMigrations\<close> on a new file.\<close>

definition empty_store :: Store where
  "empty_store = \<lparr> memory_items = [], memory_embeddings = Map.empty, friction_events = [] \<rparr>"

text \<open>\<open>setEmbedding\<close>: the check is on \<open>embedding.length\<close>; what is written is
  \<open>Buffer.from(embedding.buffer)\<close>, the whole buffer under the view, by
  \<open>INSERT OR REPLACE\<close>, which the foreign key refuses when no row of \<open>memory_items\<close> has
  the identifier.\<close>

definition setEmbedding :: "string \<Rightarrow> Float32Array \<Rightarrow> Store \<Rightarrow> (StoreError + unit) \<times> Store" where
  "setEmbedding i embedding s =
     (if fa_length embedding \<noteq> EMBEDDING_DIM
      then (Inl (DimensionMismatch EMBEDDING_DIM (fa_length embedding)), s)
      else if i \<notin> set (map row_id (memory_items s))
      then (Inl ForeignKeyViolation, s)
      else (Inr (),
            s\<lparr> memory_embeddings := (memory_embeddings s)(i \<mapsto> fa_buffer embedding) \<rparr>))"

text \<open>\<open>getEmbedding\<close>: a blob whose size is not that of \<open>EMBEDDING_DIM\<close> floats gives
  \<open>null\<close>; otherwise the result is the view of \<open>EMBEDDING_DIM\<close> floats on the blob.\<close>

definition getEmbedding :: "string \<Rightarrow> Store \<Rightarrow> real list option" where
  "getEmbedding i s =
     (case memory_embeddings s i of
        None \<Rightarrow> None
      | Some e \<Rightarrow> if length e \<noteq> EMBEDDING_DIM then None else Some (take EMBEDDING_DIM e))"

text \<open>\<open>INSERT INTO memory_items\<close>: the columns not listed take the defaults of the schema
  (\<open>friction_score 0\<close>, \<open>active 1\<close>, both timestamps \<open>now\<close>); a repeated primary key is
  refused by the engine.\<close>

definition insert_memory_item ::
  "string \<Rightarrow> MemoryType \<Rightarrow> string \<Rightarrow> string option \<Rightarrow> MemorySource \<Rightarrow> Metadata \<Rightarrow> nat
     \<Rightarrow> Store \<Rightarrow> StoreError + Store" where
  "insert_memory_item i t c ctx src md now s =
     (if i \<in> set (map row_id (memory_items s)) then Inl PrimaryKeyViolation
      else Inr (s\<lparr> memory_items := memory_items s @
             [\<lparr> row_id = i, row_type = t, row_content = c, row_context = ctx,
                row_source = src, friction_score = 0, created_at = now, updated_at = now,
                row_active = True, row_metadata = md \<rparr>] \<rparr>))"

text \<open>The three add operations insert the row and then, outside any transaction, store
  the embedding when one is given: a rejected embedding leaves the new row behind.\<close>

definition add_with_embedding ::
  "string \<Rightarrow> Float32Array option \<Rightarrow> StoreError + Store \<Rightarrow> Store
     \<Rightarrow> (StoreError + string) \<times> Store" where
  "add_with_embedding i embedding inserted s =
     (case inserted of
        Inl e \<Rightarrow> (Inl e, s)
      | Inr s1 \<Rightarrow>
          (case embedding of
             None \<Rightarrow> (Inr i, s1)
           | Some v \<Rightarrow>
               (case setEmbedding i v s1 of
                  (Inl e, s2) \<Rightarrow> (Inl e, s2)
                | (Inr _, s2) \<Rightarrow> (Inr i, s2))))"

definition addConstraint ::
  "string \<Rightarrow> CreateConstraintInput \<Rightarrow> Float32Array option \<Rightarrow> nat \<Rightarrow> Store
     \<Rightarrow> (StoreError + string) \<times> Store" where
  "addConstraint i inp embedding now s =
     add_with_embedding i embedding
       (insert_memory_item i Constraint (cc_content inp) (cc_context inp)
          (case cc_source inp of None \<Rightarrow> SourceUser | Some src \<Rightarrow> src)
          (empty_metadata\<lparr> md_scope := cc_scope inp,
             md_severity := Some (case cc_severity inp of None \<Rightarrow> SevWarning | Some v \<Rightarrow> v) \<rparr>)
          now s) s"

definition addDecision ::
  "string \<Rightarrow> CreateDecisionInput \<Rightarrow> Float32Array option \<Rightarrow> nat \<Rightarrow> Store
     \<Rightarrow> (StoreError + string) \<times> Store" where
  "addDecision i inp embedding now s =
     add_with_embedding i embedding
       (insert_memory_item i Decision (cd_content inp) (cd_context inp)
          (case cd_source inp of None \<Rightarrow> SourceUser | Some src \<Rightarrow> src)
          (empty_metadata\<lparr> md_alternatives := cd_alternatives inp,
             md_rationale := Some (cd_rationale inp),
             md_relatedFiles := cd_relatedFiles inp \<rparr>)
          now s) s"

definition addHeuristic ::
  "string \<Rightarrow> CreateHeuristicInput \<Rightarrow> Float32Array option \<Rightarrow> nat \<Rightarrow> Store
     \<Rightarrow> (StoreError + string) \<times> Store" where
  "addHeuristic i inp embedding now s =
     add_with_embedding i embedding
       (insert_memory_item i Heuristic (ch_content inp) (ch_context inp)
          (case ch_source inp of None \<Rightarrow> SourceUser | Some src \<Rightarrow> src)
          (empty_metadata\<lparr> md_applicableWhen := ch_applicableWhen inp,
             md_strength := Some (case ch_strength inp of None \<Rightarrow> Moderate | Some v \<Rightarrow> v) \<rparr>)
          now s) s"

text \<open>\<open>rowToMemory\<close>: the switch on the \<open>type\<close> column, with the defaults for absent keys.
  The \<open>CHECK\<close> on column \<open>type\<close> leaves no other case.\<close>

definition rowToMemory :: "MemoryRow \<Rightarrow> MemoryItem" where
  "rowToMemory row =
     (let md = row_metadata row in
      \<lparr> mem_id = row_id row, mem_content = row_content row, mem_context = row_context row,
        mem_source = row_source row, frictionScore = friction_score row,
        createdAt = created_at row, updatedAt = updated_at row, mem_active = row_active row,
        mem_details =
          (case row_type row of
             Constraint \<Rightarrow>
               ConstraintD (md_scope md)
                 (case md_severity md of None \<Rightarrow> SevWarning | Some v \<Rightarrow> v)
           | Decision \<Rightarrow>
               DecisionD (md_alternatives md)
                 (case md_rationale md of None \<Rightarrow> [] | Some r \<Rightarrow> r)
                 (md_relatedFiles md)
           | Heuristic \<Rightarrow>
               HeuristicD (md_applicableWhen md)
                 (case md_strength md of None \<Rightarrow> Moderate | Some v \<Rightarrow> v)) \<rparr>)"

text \<open>\<open>ORDER BY created_at DESC\<close>: a stable sort of the table, newest first.\<close>

definition order_by_created_desc :: "MemoryRow list \<Rightarrow> MemoryRow list" where
  "order_by_created_desc rows = rev (sort_key created_at (rev rows))"

definition getById :: "string \<Rightarrow> Store \<Rightarrow> MemoryItem option" where
  "getById i s =
     (case filter (\<lambda>r. row_id r = i \<and> row_active r) (memory_items s) of
        [] \<Rightarrow> None
      | row # _ \<Rightarrow> Some (rowToMemory row))"

definition getByType :: "MemoryType \<Rightarrow> Store \<Rightarrow> MemoryItem list" where
  "getByType t s =
     map rowToMemory
       (order_by_created_desc (filter (\<lambda>r. row_type r = t \<and> row_active r) (memory_items s)))"

definition getAllConstraints :: "Store \<Rightarrow> MemoryItem list" where
  "getAllConstraints s = getByType Constraint s"

text \<open>\<open>delete\<close>: the \<open>UPDATE\<close> has \<open>WHERE id = ?\<close> only, and \<open>result.changes\<close> counts the
  rows the statement matched.\<close>

definition delete :: "string \<Rightarrow> nat \<Rightarrow> Store \<Rightarrow> bool \<times> Store" where
  "delete i now s =
     (let changes = length (filter (\<lambda>r. row_id r = i) (memory_items s)) in
      (changes > 0,
       s\<lparr> memory_items :=
            map (\<lambda>r. if row_id r = i then r\<lparr> row_active := False, updated_at := now \<rparr> else r)
              (memory_items s) \<rparr>))"

text \<open>\<open>updateContent\<close>: here the \<open>UPDATE\<close> has \<open>WHERE id = ? AND active = 1\<close>.\<close>

definition updateContent ::
  "string \<Rightarrow> string \<Rightarrow> Float32Array option \<Rightarrow> nat \<Rightarrow> Store \<Rightarrow> (StoreError + bool) \<times> Store" where
  "updateContent i c embedding now s =
     (let changes = length (filter (\<lambda>r. row_id r = i \<and> row_active r) (memory_items s));
          s1 = s\<lparr> memory_items :=
                 map (\<lambda>r. if row_id r = i \<and> row_active r
                          then r\<lparr> row_content := c, updated_at := now \<rparr> else r)
                   (memory_items s) \<rparr>
      in case embedding of
           None \<Rightarrow> (Inr (changes > 0), s1)
         | Some v \<Rightarrow>
             if changes > 0
             then (case setEmbedding i v s1 of
                     (Inl e, s2) \<Rightarrow> (Inl e, s2)
                   | (Inr _, s2) \<Rightarrow> (Inr True, s2))
             else (Inr False, s1))"

text \<open>\<open>recordFrictionEvent\<close>: one transaction that appends the event and updates the score
  with \<open>MAX(-10, MIN(10, friction_score + ?))\<close>. The insert is refused for a repeated
  event id and for a \<open>memoryId\<close> that no row of \<open>memory_items\<close> has; the exception rolls the
  transaction back.\<close>

definition clamp_friction :: "real \<Rightarrow> real" where
  "clamp_friction x = max (-10) (min 10 x)"

definition recordFrictionEvent ::
  "string \<Rightarrow> string \<Rightarrow> FrictionEventType \<Rightarrow> real \<Rightarrow> string option \<Rightarrow> nat \<Rightarrow> Store
     \<Rightarrow> (StoreError + string) \<times> Store" where
  "recordFrictionEvent i memoryId eventType delta ctx now s =
     (if i \<in> set (map fe_id (friction_events s)) then (Inl PrimaryKeyViolation, s)
      else if memoryId \<notin> set (map row_id (memory_items s)) then (Inl ForeignKeyViolation, s)
      else (Inr i,
            s\<lparr> friction_events := friction_events s @
                  [\<lparr> fe_id = i, fe_memory_id = memoryId, fe_event_type = eventType,
                     fe_delta = delta, fe_context = ctx, fe_created_at = now \<rparr>],
               memory_items :=
                  map (\<lambda>r. if row_id r = memoryId
                           then r\<lparr> friction_score := clamp_friction (friction_score r + delta),
                                   updated_at := now \<rparr>
                           else r)
                    (memory_items s) \<rparr>))"

text \<open>\<open>applyFrictionDecay\<close>: \<open>Math.pow(0.5, 1 / halfLifeDays)\<close>, default 30 days; for
  \<open>halfLifeDays = 0\<close> the exponent is infinite and the factor 0. Only rows with a
  non-zero score are updated and counted.\<close>

definition decayFactor :: "real \<Rightarrow> real" where
  "decayFactor halfLifeDays = (if halfLifeDays = 0 then 0 else (1 / 2) powr (1 / halfLifeDays))"

definition applyFrictionDecay :: "real option \<Rightarrow> nat \<Rightarrow> Store \<Rightarrow> nat \<times> Store" where
  "applyFrictionDecay halfLifeDays now s =
     (let f = decayFactor (case halfLifeDays of None \<Rightarrow> 30 | Some h \<Rightarrow> h) in
      (length (filter (\<lambda>r. friction_score r \<noteq> 0) (memory_items s)),
       s\<lparr> memory_items :=
            map (\<lambda>r. if friction_score r \<noteq> 0
                     then r\<lparr> friction_score := friction_score r * f, updated_at := now \<rparr>
                     else r)
              (memory_items s) \<rparr>))"

subsection \<open>Vector search\<close>

text \<open>A JavaScript number that may be NaN: \<open>None\<close> is NaN. Arithmetic with NaN gives
  NaN and every comparison with NaN is false.\<close>

type_synonym number = "real option"

definition num_ge :: "number \<Rightarrow> real \<Rightarrow> bool" where
  "num_ge a m = (case a of None \<Rightarrow> False | Some x \<Rightarrow> x \<ge> m)"

definition num_geq :: "number \<Rightarrow> number \<Rightarrow> bool" where
  "num_geq a b =
     (case a of None \<Rightarrow> False | Some x \<Rightarrow> (case b of None \<Rightarrow> False | Some y \<Rightarrow> x \<ge> y))"

definition num_sub :: "number \<Rightarrow> number \<Rightarrow> number" where
  "num_sub a b = (case a of None \<Rightarrow> None | Some x \<Rightarrow> (case b of None \<Rightarrow> None | Some y \<Rightarrow> Some (x - y)))"

definition num_pos :: "number \<Rightarrow> bool" where
  "num_pos a = (case a of None \<Rightarrow> False | Some x \<Rightarrow> x > 0)"

text \<open>\<open>Array.prototype.sort(compare)\<close>: a stable sort that puts \<open>x\<close> behind \<open>y\<close> exactly
  when \<open>compare(x, y) > 0\<close>, written as insertion sort.\<close>

fun js_insert :: "('a \<Rightarrow> 'a \<Rightarrow> number) \<Rightarrow> 'a \<Rightarrow> 'a list \<Rightarrow> 'a list" where
  "js_insert cmp x [] = [x]"
| "js_insert cmp x (y # ys) =
     (if num_pos (cmp x y) then y # js_insert cmp x ys else x # y # ys)"

definition js_sort :: "('a \<Rightarrow> 'a \<Rightarrow> number) \<Rightarrow> 'a list \<Rightarrow> 'a list" where
  "js_sort cmp xs = foldr (js_insert cmp) xs []"

text \<open>\<open>Array.prototype.slice(0, end)\<close> for an integral \<open>end\<close>: a negative \<open>end\<close> counts
  from the end of the array.\<close>

definition js_slice0 :: "int \<Rightarrow> 'a list \<Rightarrow> 'a list" where
  "js_slice0 e xs =
     (if e < 0 then take (nat (max (int (length xs) + e) 0)) xs else take (nat e) xs)"

text \<open>\<open>cosineSimilarity\<close>: the loop runs over the indices of \<open>a\<close>. Reading \<open>b[i]\<close> beyond
  the end of \<open>b\<close> gives \<open>undefined\<close>, which turns \<open>dotProduct\<close> and \<open>normB\<close>, and with them
  the result, into NaN.\<close>

fun cosine_loop :: "real list \<Rightarrow> real list \<Rightarrow> real \<times> real \<times> real \<Rightarrow> (real \<times> real \<times> real) option" where
  "cosine_loop [] b acc = Some acc"
| "cosine_loop (x # xs) [] acc = None"
| "cosine_loop (x # xs) (y # ys) (dotProduct, normA, normB) =
     cosine_loop xs ys (dotProduct + x * y, normA + x * x, normB + y * y)"

definition cosineSimilarity :: "real list \<Rightarrow> real list \<Rightarrow> number" where
  "cosineSimilarity a b =
     (case cosine_loop a b (0, 0, 0) of
        None \<Rightarrow> None
      | Some (dotProduct, normA, normB) \<Rightarrow>
          (let denominator = sqrt normA * sqrt normB
           in Some (if denominator = 0 then 0 else dotProduct / denominator)))"

record VectorSearchOptions =
  vs_limit :: int
  vs_types :: "MemoryType list option"

record Candidate =
  cand_memory :: MemoryItem
  cand_similarity :: number

text \<open>The join of \<open>memory_items\<close> with \<open>memory_embeddings\<close>, in table order. Each blob
  is read through \<open>new Float32Array(buffer, byteOffset, EMBEDDING_DIM)\<close>, its first
  \<open>EMBEDDING_DIM\<close> floats; every blob holds at least as many, \<open>setEmbedding\<close> being the
  only writer of the table.\<close>

definition joined_rows :: "MemoryType list option \<Rightarrow> Store \<Rightarrow> (MemoryRow \<times> real list) list" where
  "joined_rows types s =
     List.map_filter
       (\<lambda>r. case memory_embeddings s (row_id r) of
               None \<Rightarrow> None
             | Some e \<Rightarrow>
                 if row_active r \<and>
                    (case types of
                       None \<Rightarrow> True
                     | Some ts \<Rightarrow> if length ts > 0 then row_type r \<in> set ts else True)
                 then Some (r, e) else None)
       (memory_items s)"

definition vectorSearch :: "real list \<Rightarrow> VectorSearchOptions \<Rightarrow> Store \<Rightarrow> Candidate list" where
  "vectorSearch queryEmbedding options s =
     js_slice0 (vs_limit options)
       (js_sort (\<lambda>a b. num_sub (cand_similarity b) (cand_similarity a))
          (map (\<lambda>(row, embedding).
                  \<lparr> cand_memory = rowToMemory row,
                    cand_similarity =
                      cosineSimilarity queryEmbedding (take EMBEDDING_DIM embedding) \<rparr>)
             (joined_rows (vs_types options) s)))"

section \<open>Memory retriever (src/memory/retriever.ts)\<close>

text \<open>An embedding provider maps a text to a vector, given by its elements, or fails
  (\<open>None\<close>: the promise of \<open>embed\<close> is rejected, as the network-backed providers can).\<close>

type_synonym Embedder = "string \<Rightarrow> real list option"

datatype TypeArg = OneType MemoryType | ManyTypes "MemoryType list"

record RetrievalOptions =
  ro_type :: "TypeArg option"
  ro_limit :: "int option"
  ro_minSimilarity :: "real option"
  ro_includeFriction :: "bool option"

definition default_options :: RetrievalOptions where
  "default_options = \<lparr> ro_type = None, ro_limit = None, ro_minSimilarity = None,
     ro_includeFriction = None \<rparr>"

record RetrievalResult =
  rr_memory :: MemoryItem
  similarity :: number
  adjustedScore :: number

definition applyFrictionModifier :: "number \<Rightarrow> real \<Rightarrow> number" where
  "applyFrictionModifier sim friction =
     (let modifier = 1 + (0.5 * tanh (friction / 3))
      in case sim of None \<Rightarrow> None | Some x \<Rightarrow> Some (x * modifier))"

text \<open>The defaults of the destructured options, and
  \<open>type ? (Array.isArray(type) ? type : [type]) : undefined\<close>.\<close>

definition opt_limit :: "RetrievalOptions \<Rightarrow> int" where
  "opt_limit options = (case ro_limit options of None \<Rightarrow> 10 | Some l \<Rightarrow> l)"

definition opt_minSimilarity :: "RetrievalOptions \<Rightarrow> real" where
  "opt_minSimilarity options = (case ro_minSimilarity options of None \<Rightarrow> 0.3 | Some m \<Rightarrow> m)"

definition opt_includeFriction :: "RetrievalOptions \<Rightarrow> bool" where
  "opt_includeFriction options = (case ro_includeFriction options of None \<Rightarrow> True | Some b \<Rightarrow> b)"

definition search_types :: "RetrievalOptions \<Rightarrow> MemoryType list option" where
  "search_types options =
     (case ro_type options of
        None \<Rightarrow> None
      | Some (OneType t) \<Rightarrow> Some [t]
      | Some (ManyTypes ts) \<Rightarrow> Some ts)"

definition rerank :: "bool \<Rightarrow> Candidate \<Rightarrow> RetrievalResult" where
  "rerank includeFriction c =
     \<lparr> rr_memory = cand_memory c,
       similarity = cand_similarity c,
       adjustedScore =
         (if includeFriction
          then applyFrictionModifier (cand_similarity c) (frictionScore (cand_memory c))
          else cand_similarity c) \<rparr>"

definition retrieve :: "Embedder \<Rightarrow> Store \<Rightarrow> string \<Rightarrow> RetrievalOptions \<Rightarrow> RetrievalResult list option" where
  "retrieve embedder s query options =
     (let limit = opt_limit options;
          minSimilarity = opt_minSimilarity options;
          includeFriction = opt_includeFriction options
      in case embedder query of
           None \<Rightarrow> None
         | Some queryEmbedding \<Rightarrow>
             (let types = search_types options;
                  candidates = vectorSearch queryEmbedding
                                 \<lparr> vs_limit = limit * 3, vs_types = types \<rparr> s
              in Some
                   (js_slice0 limit
                      (js_sort (\<lambda>a b. num_sub (adjustedScore b) (adjustedScore a))
                         (map (rerank includeFriction)
                            (filter (\<lambda>c. num_ge (cand_similarity c) minSimilarity)
                               candidates))))))"

definition retrieveDecisions :: "Embedder \<Rightarrow> Store \<Rightarrow> string \<Rightarrow> int \<Rightarrow> RetrievalResult list option" where
  "retrieveDecisions embedder s query limit =
     retrieve embedder s query
       \<lparr> ro_type = Some (OneType Decision), ro_limit = Some limit,
         ro_minSimilarity = Some 0.4, ro_includeFriction = None \<rparr>"

definition retrieveHeuristics :: "Embedder \<Rightarrow> Store \<Rightarrow> string \<Rightarrow> int \<Rightarrow> RetrievalResult list option" where
  "retrieveHeuristics embedder s query limit =
     retrieve embedder s query
       \<lparr> ro_type = Some (OneType Heuristic), ro_limit = Some limit,
         ro_minSimilarity = Some 0.35, ro_includeFriction = None \<rparr>"

subsection \<open>Ambiguity detection\<close>

text \<open>The regular expressions of \<open>detectsAmbiguity\<close> use literals, alternation, \<open>?\<close>
  and \<open>.*\<close> only. \<open>rmatch r s\<close> lists what can remain of \<open>s\<close> after a match of \<open>r\<close> at its
  start; \<open>RegExp.prototype.test\<close> looks for a match at any position.\<close>

datatype regex =
    Eps
  | Chr char
  | AnyStar
  | Seq regex regex
  | Alt regex regex
  | Opt regex

text \<open>Flag \<open>i\<close> compares canonicalised code units (simple upper-casing): in the
  Latin-1 range \<open>a\<close>--\<open>z\<close> and the accented letters \<open>0xE0\<close>--\<open>0xFE\<close> other than \<open>0xF7\<close>
  move to their capitals and no two other code units meet. The dot excludes the line
  terminators.\<close>

definition canonicalize :: "char \<Rightarrow> char" where
  "canonicalize c =
     (let n = (of_char c :: nat) in
      if (97 \<le> n \<and> n \<le> 122) \<or> (224 \<le> n \<and> n \<le> 254 \<and> n \<noteq> 247)
      then char_of (n - 32) else c)"

definition chr_matches :: "bool \<Rightarrow> char \<Rightarrow> char \<Rightarrow> bool" where
  "chr_matches ignoreCase p c = (if ignoreCase then canonicalize p = canonicalize c else p = c)"

definition line_terminator :: "char \<Rightarrow> bool" where
  "line_terminator c = ((of_char c :: nat) = 10 \<or> (of_char c :: nat) = 13)"

fun rmatch :: "bool \<Rightarrow> regex \<Rightarrow> string \<Rightarrow> string list" where
  "rmatch ic Eps s = [s]"
| "rmatch ic (Chr p) [] = []"
| "rmatch ic (Chr p) (c # cs) = (if chr_matches ic p c then [cs] else [])"
| "rmatch ic AnyStar [] = [[]]"
| "rmatch ic AnyStar (c # cs) = (c # cs) # (if line_terminator c then [] else rmatch ic AnyStar cs)"
| "rmatch ic (Seq a b) s = concat (map (rmatch ic b) (rmatch ic a s))"
| "rmatch ic (Alt a b) s = rmatch ic a s @ rmatch ic b s"
| "rmatch ic (Opt a) s = rmatch ic a s @ [s]"

fun regex_test :: "bool \<Rightarrow> regex \<Rightarrow> string \<Rightarrow> bool" where
  "regex_test ic r [] = (rmatch ic r [] \<noteq> [])"
| "regex_test ic r (c # cs) = (rmatch ic r (c # cs) \<noteq> [] \<or> regex_test ic r cs)"

fun lit :: "string \<Rightarrow> regex" where
  "lit [] = Eps"
| "lit [c] = Chr c"
| "lit (c # cs) = Seq (Chr c) (lit cs)"

text \<open>The list \<open>ambiguitySignals\<close>, each pattern with its \<open>i\<close> flag.\<close>

definition ambiguitySignals :: "(regex \<times> bool) list" where
  "ambiguitySignals =
     [ (lit ''should i'', True),
       (Seq (lit ''what'') (Seq (Alt (lit [CHR 0x27, CHR ''s'']) (lit '' is''))
          (Seq (lit '' '') (Seq (Opt (lit ''the '')) (lit ''best'')))), True),
       (lit ''how should'', True),
       (Seq (lit ''which '')
          (Alt (lit ''one'') (Alt (lit ''approach'') (Alt (lit ''method'') (lit ''way'')))), True),
       (lit ''recommend'', True),
       (lit ''prefer'', True),
       (lit ''or should'', True),
       (lit ''better to'', True),
       (lit ''what do you think'', True),
       (lit ''would you suggest'', True),
       (Seq (lit ''?'') (Seq AnyStar (lit ''?'')), False),
       (Seq (lit ''either'') (Seq AnyStar (lit ''or'')), True),
       (Seq (lit ''trade'') (Seq (Opt (lit ''-'')) (lit ''off'')), True) ]"

definition detectsAmbiguity :: "string \<Rightarrow> bool" where
  "detectsAmbiguity prompt = list_ex (\<lambda>(pattern, ic). regex_test ic pattern prompt) ambiguitySignals"

subsection \<open>Retrieval for context building\<close>

record ContextOptions =
  maxDecisions :: "int option"
  maxHeuristics :: "int option"
  includeHeuristics :: "bool option"

record RetrievedContext =
  constraints :: "MemoryItem list"
  decisions :: "RetrievalResult list"
  heuristics :: "RetrievalResult list"
  isAmbiguous :: bool

definition retrieveForContext ::
  "Embedder \<Rightarrow> Store \<Rightarrow> string \<Rightarrow> ContextOptions \<Rightarrow> RetrievedContext option" where
  "retrieveForContext embedder s prompt options =
     (let maxD = (case maxDecisions options of None \<Rightarrow> 5 | Some n \<Rightarrow> n);
          maxH = (case maxHeuristics options of None \<Rightarrow> 3 | Some n \<Rightarrow> n);
          cs = getAllConstraints s
      in case retrieveDecisions embedder s prompt maxD of
           None \<Rightarrow> None
         | Some ds \<Rightarrow>
             (let amb = detectsAmbiguity prompt in
              if includeHeuristics options = Some True \<or>
                 (includeHeuristics options \<noteq> Some False \<and> amb)
              then (case retrieveHeuristics embedder s prompt maxH of
                      None \<Rightarrow> None
                    | Some hs \<Rightarrow>
                        Some \<lparr> constraints = cs, decisions = ds, heuristics = hs,
                               isAmbiguous = amb \<rparr>)
              else Some \<lparr> constraints = cs, decisions = ds, heuristics = [],
                          isAmbiguous = amb \<rparr>))"

definition search :: "Embedder \<Rightarrow> Store \<Rightarrow> string \<Rightarrow> MemoryType option \<Rightarrow> int option
    \<Rightarrow> RetrievalResult list option" where
  "search embedder s query t limit =
     retrieve embedder s query
       \<lparr> ro_type = map_option OneType t,
         ro_limit = Some (case limit of None \<Rightarrow> 10 | Some l \<Rightarrow> l),
         ro_minSimilarity = Some 0.2, ro_includeFriction = None \<rparr>"

section \<open>Fallback embedder (src/memory/embeddings.ts)\<close>

definition LOCAL_EMBEDDING_DIM :: nat where
  "LOCAL_EMBEDDING_DIM = 384"

text \<open>\<open>String.prototype.toLowerCase\<close> on the Latin-1 range: \<open>A\<close>--\<open>Z\<close> and the accented
  capitals \<open>0xC0\<close>--\<open>0xDE\<close> other than \<open>0xD7\<close> move to their small letters.\<close>

definition lower_char :: "char \<Rightarrow> char" where
  "lower_char c =
     (let n = (of_char c :: nat) in
      if (65 \<le> n \<and> n \<le> 90) \<or> (192 \<le> n \<and> n \<le> 222 \<and> n \<noteq> 215)
      then char_of (n + 32) else c)"

definition toLowerCase :: "string \<Rightarrow> string" where
  "toLowerCase s = map lower_char s"

text \<open>White space and line terminators, as \<open>trim\<close> and the class \<open>\s\<close> know them, in the
  Latin-1 range: TAB, LF, VT, FF, CR, SP and NBSP.\<close>

definition is_space :: "char \<Rightarrow> bool" where
  "is_space c = ((of_char c :: nat) \<in> {9, 10, 11, 12, 13, 32, 160})"

definition trim :: "string \<Rightarrow> string" where
  "trim s = rev (dropWhile is_space (rev (dropWhile is_space s)))"

text \<open>\<open>split(/\s+/)\<close>: the pieces between the maximal runs of white space; a run at
  either end leaves an empty piece there.\<close>

function split_spaces :: "string \<Rightarrow> string \<Rightarrow> string list" where
  "split_spaces cur [] = [rev cur]"
| "split_spaces cur (c # cs) =
     (if is_space c then rev cur # split_spaces [] (dropWhile is_space cs)
      else split_spaces (c # cur) cs)"
  by pat_completeness auto
termination
  by (relation "measure (\<lambda>(cur, s). length s)") (auto simp: length_dropWhile_le less_Suc_eq_le)

text \<open>\<open>simpleHash\<close>: \<open>hash << 5\<close> and \<open>hash & hash\<close> work on 32-bit integers; the result
  is the absolute value of the signed reading.\<close>

fun simpleHash_loop :: "32 word \<Rightarrow> string \<Rightarrow> 32 word" where
  "simpleHash_loop hash [] = hash"
| "simpleHash_loop hash (c # cs) =
     simpleHash_loop ((push_bit 5 hash - hash) + of_nat (of_char c)) cs"

definition simpleHash :: "string \<Rightarrow> nat" where
  "simpleHash str = nat \<bar>sint (simpleHash_loop 0 str)\<bar>"

definition add_at :: "nat \<Rightarrow> real \<Rightarrow> real list \<Rightarrow> real list" where
  "add_at i v e = (if i < length e then e[i := e ! i + v] else e)"

fun char_contributions :: "nat \<Rightarrow> string \<Rightarrow> real list \<Rightarrow> real list" where
  "char_contributions i [] e = e"
| "char_contributions i (c # cs) e =
     (let charCode = (of_char c :: nat);
          position = i mod LOCAL_EMBEDDING_DIM;
          e1 = add_at position (sin (real charCode * 0.1) * 0.1) e;
          e2 = add_at ((position + 1) mod LOCAL_EMBEDDING_DIM) (cos (real charCode * 0.1) * 0.1) e1;
          e3 = add_at (charCode mod LOCAL_EMBEDDING_DIM) 0.05 e2
      in char_contributions (Suc i) cs e3)"

fun word_features :: "string list \<Rightarrow> real list \<Rightarrow> real list" where
  "word_features [] e = e"
| "word_features (w # ws) e =
     word_features ws (add_at (simpleHash w mod LOCAL_EMBEDDING_DIM) 0.1 e)"

definition normalize_vector :: "real list \<Rightarrow> real list" where
  "normalize_vector e =
     (let norm = sqrt (foldl (\<lambda>acc x. acc + x * x) 0 e)
      in if norm > 0 then map (\<lambda>x. x / norm) e else e)"

definition embed_normalized :: "string \<Rightarrow> real list" where
  "embed_normalized normalized =
     normalize_vector
       (word_features (split_spaces [] normalized)
          (char_contributions 0 normalized
             (map (\<lambda>i. sin (real i * 0.1 + real (length normalized) * 0.01) * 0.01)
                [0..<LOCAL_EMBEDDING_DIM])))"

definition hashToEmbedding :: "string \<Rightarrow> real list" where
  "hashToEmbedding text = embed_normalized (trim (toLowerCase text))"

text \<open>\<open>SimpleEmbedder.embed\<close>, as an embedding provider that never fails.\<close>

definition SimpleEmbedder_embed :: Embedder where
  "SimpleEmbedder_embed text = Some (hashToEmbedding text)"

section \<open>Context builder (src/core/context-builder.ts)\<close>

datatype Role = System | User | Assistant

record Message =
  role :: Role
  content :: string

record ContextConfig =
  maxTokens :: int
  systemTokens :: int
  constraintTokens :: int
  conversationTokens :: int
  decisionTokens :: int
  heuristicTokens :: int

definition DEFAULT_CONTEXT_CONFIG :: ContextConfig where
  "DEFAULT_CONTEXT_CONFIG = \<lparr> maxTokens = 8000, systemTokens = 500, constraintTokens = 1000,
     conversationTokens = 3000, decisionTokens = 2000, heuristicTokens = 500 \<rparr>"

record MemoryStats =
  constraintsIncluded :: nat
  decisionsIncluded :: nat
  heuristicsIncluded :: nat
  wasAmbiguous :: bool

record BuiltContext =
  messages :: "Message list"
  tokenEstimate :: nat
  memoryStats :: MemoryStats

text \<open>\<open>Math.ceil(text.length / 4)\<close>.\<close>

definition estimateTokens :: "string \<Rightarrow> nat" where
  "estimateTokens text = (length text + 3) div 4"

text \<open>\<open>Array.prototype.join\<close>.\<close>

fun join :: "string \<Rightarrow> string list \<Rightarrow> string" where
  "join sep [] = []"
| "join sep [x] = x"
| "join sep (x # y # ys) = x @ sep @ join sep (y # ys)"

definition newline :: string where
  "newline = [CHR 0x0A]"

text \<open>A line that is pushed only when the string is defined and not empty (truthy).\<close>

definition optional_line :: "string \<Rightarrow> string option \<Rightarrow> string list" where
  "optional_line label v =
     (case v of None \<Rightarrow> [] | Some x \<Rightarrow> if x \<noteq> [] then [label @ x] else [])"

definition formatMemoryForContext :: "MemoryItem \<Rightarrow> string" where
  "formatMemoryForContext memory =
     join newline
       ((case mem_details memory of
           ConstraintD scope severity \<Rightarrow>
             [''[CONSTRAINT] '' @ mem_content memory] @ optional_line ''  Scope: '' scope
         | DecisionD alternatives rationale relatedFiles \<Rightarrow>
             [''[DECISION] '' @ mem_content memory] @
             optional_line ''  Rationale: '' (Some rationale) @
             (case alternatives of
                None \<Rightarrow> []
              | Some alts \<Rightarrow>
                  if length alts > 0
                  then [''  Alternatives considered: '' @ join '', '' alts] else [])
         | HeuristicD applicableWhen strength \<Rightarrow>
             [''[HEURISTIC] '' @ mem_content memory] @
             optional_line ''  Applicable when: '' applicableWhen)
        @ optional_line ''  Context: '' (mem_context memory))"

text \<open>\<open>formatMemoriesForContext\<close>; the library function \<open>Number.prototype.toFixed(0)\<close>
  that prints the relevance percentage is the parameter \<open>toFixed0\<close>.\<close>

definition num_times :: "number \<Rightarrow> real \<Rightarrow> number" where
  "num_times a k = (case a of None \<Rightarrow> None | Some x \<Rightarrow> Some (x * k))"

definition formatMemoriesForContext ::
  "(number \<Rightarrow> string) \<Rightarrow> MemoryItem list \<Rightarrow> RetrievalResult list \<Rightarrow> RetrievalResult list \<Rightarrow> string" where
  "formatMemoriesForContext toFixed0 cs ds hs =
     join (newline @ newline)
       ((if length cs > 0
         then [''## Project Constraints (Always Apply)'',
               join (newline @ newline) (map formatMemoryForContext cs)]
         else []) @
        (if length ds > 0
         then [''## Relevant Past Decisions'',
               join (newline @ newline)
                 (map (\<lambda>d. formatMemoryForContext (rr_memory d) @ '' (relevance: '' @
                            toFixed0 (num_times (adjustedScore d) 100) @ ''%)'') ds)]
         else []) @
        (if length hs > 0
         then [''## Applicable Heuristics'',
               join (newline @ newline) (map (\<lambda>h. formatMemoryForContext (rr_memory h)) hs)]
         else []))"

definition buildSystemPrompt ::
  "(number \<Rightarrow> string) \<Rightarrow> MemoryItem list \<Rightarrow> RetrievalResult list \<Rightarrow> RetrievalResult list \<Rightarrow> string" where
  "buildSystemPrompt toFixed0 cs ds hs =
     join newline
       ([''You are Deep Context, an AI coding assistant with persistent memory.'' @ newline @
         ''You remember past decisions and constraints for this project.'' @ newline @
         ''Always consider the project context when giving advice.''] @
        (if length cs > 0 \<or> length ds > 0 \<or> length hs > 0
         then [newline @ ''# Project Memory'' @ newline, formatMemoriesForContext toFixed0 cs ds hs]
         else []) @
        (if length cs > 0
         then [newline @ ''**Important:** The constraints above are rules that MUST be followed.'']
         else []) @
        (if length ds > 0
         then [newline @ ''The decisions above represent past choices made for this project. Consider them when giving advice, but they can be reconsidered if there'' @ [CHR 0x27] @ ''s good reason.'']
         else []))"

text \<open>\<open>truncateHistory\<close>: the loop walks the history from its last message to its first,
  puts each message that still fits in front of the result and breaks at the first that
  does not.\<close>

fun truncate_loop :: "Message list \<Rightarrow> int \<Rightarrow> nat \<Rightarrow> Message list \<Rightarrow> Message list" where
  "truncate_loop [] maxT totalTokens result = result"
| "truncate_loop (msg # older) maxT totalTokens result =
     (let msgTokens = estimateTokens (content msg) in
      if int (totalTokens + msgTokens) \<le> maxT
      then truncate_loop older maxT (totalTokens + msgTokens) (msg # result)
      else result)"

definition truncateHistory :: "Message list \<Rightarrow> int \<Rightarrow> Message list" where
  "truncateHistory history maxT =
     (if length history = 0 then [] else truncate_loop (rev history) maxT 0 [])"

text \<open>The token estimate of a list of messages.\<close>

definition history_tokens :: "Message list \<Rightarrow> nat" where
  "history_tokens msgs = sum_list (map (\<lambda>m. estimateTokens (content m)) msgs)"

record BuildOptions =
  includeMemory :: "bool option"
  forceHeuristics :: "bool option"

definition build ::
  "(number \<Rightarrow> string) \<Rightarrow> Embedder \<Rightarrow> Store \<Rightarrow> ContextConfig \<Rightarrow> string \<Rightarrow> Message list
     \<Rightarrow> BuildOptions \<Rightarrow> BuiltContext option" where
  "build toFixed0 embedder s config userPrompt conversationHistory options =
     (let retrieved =
            (if (case includeMemory options of None \<Rightarrow> True | Some b \<Rightarrow> b)
             then retrieveForContext embedder s userPrompt
                    \<lparr> maxDecisions = Some 5, maxHeuristics = Some 3,
                      includeHeuristics = forceHeuristics options \<rparr>
             else Some \<lparr> constraints = [], decisions = [], heuristics = [],
                         isAmbiguous = False \<rparr>)
      in case retrieved of
           None \<Rightarrow> None
         | Some r \<Rightarrow>
             (let systemContent =
                    buildSystemPrompt toFixed0 (constraints r) (decisions r) (heuristics r);
                  historyBudget = conversationTokens config;
                  truncatedHistory = truncateHistory conversationHistory historyBudget;
                  msgs = [\<lparr> role = System, content = systemContent \<rparr>] @ truncatedHistory @
                         [\<lparr> role = User, content = userPrompt \<rparr>]
              in Some \<lparr> messages = msgs,
                        tokenEstimate = foldl (\<lambda>sum msg. sum + estimateTokens (content msg)) 0 msgs,
                        memoryStats =
                          \<lparr> constraintsIncluded = length (constraints r),
                            decisionsIncluded = length (decisions r),
                            heuristicsIncluded = length (heuristics r),
                            wasAmbiguous = isAmbiguous r \<rparr> \<rparr>))"

section \<open>Runs of store operations\<close>

text \<open>The calls that create records and change friction scores, as data, so that every
  store reached by such calls is the result of running a list of them on the new
  database.\<close>

datatype StoreOp =
    AddConstraint string CreateConstraintInput "Float32Array option" nat
  | AddDecision string CreateDecisionInput "Float32Array option" nat
  | AddHeuristic string CreateHeuristicInput "Float32Array option" nat
  | RecordFrictionEvent string string FrictionEventType real "string option" nat
  | ApplyFrictionDecay "real option" nat

fun exec_op :: "StoreOp \<Rightarrow> Store \<Rightarrow> Store" where
  "exec_op (AddConstraint i inp e now) s = snd (addConstraint i inp e now s)"
| "exec_op (AddDecision i inp e now) s = snd (addDecision i inp e now s)"
| "exec_op (AddHeuristic i inp e now) s = snd (addHeuristic i inp e now s)"
| "exec_op (RecordFrictionEvent i m t d c now) s = snd (recordFrictionEvent i m t d c now s)"
| "exec_op (ApplyFrictionDecay h now) s = snd (applyFrictionDecay h now s)"

definition exec_ops :: "StoreOp list \<Rightarrow> Store \<Rightarrow> Store" where
  "exec_ops ops s = foldl (\<lambda>st op. exec_op op st) s ops"

text \<open>Every stored blob has at least \<open>EMBEDDING_DIM\<close> floats; the views that a call
  hands to the store lie inside their buffers.\<close>

definition embeddings_well_sized :: "Store \<Rightarrow> bool" where
  "embeddings_well_sized s = (\<forall>e \<in> ran (memory_embeddings s). EMBEDDING_DIM \<le> length e)"

fun op_view_valid :: "StoreOp \<Rightarrow> bool" where
  "op_view_valid (AddConstraint i inp (Some e) now) = valid_view e"
| "op_view_valid (AddDecision i inp (Some e) now) = valid_view e"
| "op_view_valid (AddHeuristic i inp (Some e) now) = valid_view e"
| "op_view_valid _ = True"

text \<open>The half-life a decay call works with is positive (the default, 30, is).\<close>

fun positive_half_life :: "StoreOp \<Rightarrow> bool" where
  "positive_half_life (ApplyFrictionDecay (Some h) now) = (h > 0)"
| "positive_half_life _ = True"

text \<open>The friction score of the record \<open>memoryId\<close> as \<open>getById\<close> reports it.\<close>

definition score_of :: "string \<Rightarrow> Store \<Rightarrow> real option" where
  "score_of memoryId s = map_option frictionScore (getById memoryId s)"

text \<open>The score update of one friction event, and the range of the score.\<close>

definition friction_step :: "real \<Rightarrow> real \<Rightarrow> real" where
  "friction_step score delta = clamp_friction (score + delta)"

definition score_in_range :: "MemoryRow \<Rightarrow> bool" where
  "score_in_range r = (-10 \<le> friction_score r \<and> friction_score r \<le> 10)"

text \<open>A run of \<open>recordFrictionEvent\<close> calls on one record: the deltas in order, with the
  event identifiers, types, notes and times of the calls.\<close>

fun recordFrictionEvents ::
  "string \<Rightarrow> (string \<times> FrictionEventType \<times> real \<times> string option \<times> nat) list \<Rightarrow> Store
     \<Rightarrow> StoreError + Store" where
  "recordFrictionEvents memoryId [] s = Inr s"
| "recordFrictionEvents memoryId ((i, t, delta, c, now) # evs) s =
     (case recordFrictionEvent i memoryId t delta c now s of
        (Inl e, _) \<Rightarrow> Inl e
      | (Inr _, s1) \<Rightarrow> recordFrictionEvents memoryId evs s1)"

definition event_delta :: "string \<times> FrictionEventType \<times> real \<times> string option \<times> nat \<Rightarrow> real" where
  "event_delta ev = fst (snd (snd ev))"

text \<open>The score the record has after the run, if every call of the run returned.\<close>

definition score_after ::
  "string \<Rightarrow> (string \<times> FrictionEventType \<times> real \<times> string option \<times> nat) list \<Rightarrow> Store
     \<Rightarrow> real option" where
  "score_after memoryId evs s =
     (case recordFrictionEvents memoryId evs s of
        Inl e \<Rightarrow> None
      | Inr s1 \<Rightarrow> score_of memoryId s1)"

section \<open>Stand-ins for tests\<close>

text \<open>An embedding provider that answers every text with the same vector, a vector
  of \<open>EMBEDDING_DIM\<close> floats along the first axis, and the identifiers of what a retrieval
  returns.\<close>

definition constant_embedder :: "real list \<Rightarrow> Embedder" where
  "constant_embedder v text = Some v"

definition axis_vector :: "real \<Rightarrow> real list" where
  "axis_vector x = x # replicate 383 0"

text \<open>A stand-in for \<open>toFixed(0)\<close> that prints no digits.\<close>

definition no_digits :: "number \<Rightarrow> string" where
  "no_digits x = []"

definition retrieved_ids :: "RetrievalResult list option \<Rightarrow> string list option" where
  "retrieved_ids res = map_option (map (\<lambda>r. mem_id (rr_memory r))) res"

text \<open>Inputs with only the required fields, and two small stores: three constraints
  without embeddings, a decision and a heuristic with embeddings; and five decisions
  with embeddings, the third of which has received a friction delta of 6.\<close>

definition constraint_input :: "string \<Rightarrow> CreateConstraintInput" where
  "constraint_input c = \<lparr> cc_content = c, cc_context = None, cc_source = None,
     cc_scope = None, cc_severity = None \<rparr>"

definition decision_input :: "string \<Rightarrow> string \<Rightarrow> CreateDecisionInput" where
  "decision_input c r = \<lparr> cd_content = c, cd_context = None, cd_source = None,
     cd_alternatives = None, cd_rationale = r, cd_relatedFiles = None \<rparr>"

definition heuristic_input :: "string \<Rightarrow> CreateHeuristicInput" where
  "heuristic_input c = \<lparr> ch_content = c, ch_context = None, ch_source = None,
     ch_applicableWhen = None, ch_strength = None \<rparr>"

definition project_store :: Store where
  "project_store = exec_ops
     [AddConstraint ''c1'' (constraint_input ''Always validate input'') None 1,
      AddConstraint ''c2'' (constraint_input ''Never use var'') None 2,
      AddConstraint ''c3'' (constraint_input ''Use tabs'') None 3,
      AddDecision ''d1'' (decision_input ''Use PostgreSQL'' ''Need complex joins'')
        (Some (float32array (axis_vector 1))) 4,
      AddHeuristic ''h1'' (heuristic_input ''Prefer async/await'') (Some (float32array (axis_vector 2))) 5]
     empty_store"

definition decisions_store :: Store where
  "decisions_store = exec_ops
     [AddDecision ''d1'' (decision_input ''a'' ''r'') (Some (float32array (axis_vector 1))) 1,
      AddDecision ''d2'' (decision_input ''b'' ''r'') (Some (float32array (axis_vector 2))) 2,
      AddDecision ''d3'' (decision_input ''c'' ''r'') (Some (float32array (axis_vector 3))) 3,
      AddDecision ''d4'' (decision_input ''d'' ''r'') (Some (float32array (axis_vector 4))) 4,
      AddDecision ''d5'' (decision_input ''e'' ''r'') (Some (float32array (axis_vector 5))) 5,
      RecordFrictionEvent ''e1'' ''d3'' Acceptance 6 None 6]
     empty_store"

section \<open>The specification's notions\<close>

text \<open>Written from the specification's words, to compare the code with:
  \<open>clamp(x, lo, hi)\<close>, the dot product and the Euclidean norm.\<close>

definition spec_clamp :: "real \<Rightarrow> real \<Rightarrow> real \<Rightarrow> real" where
  "spec_clamp x lo hi = (if x < lo then lo else if x > hi then hi else x)"

definition spec_dot :: "real list \<Rightarrow> real list \<Rightarrow> real" where
  "spec_dot a b = sum_list (map2 (*) a b)"

definition spec_norm :: "real list \<Rightarrow> real" where
  "spec_norm a = sqrt (sum_list (map (\<lambda>x. x * x) a))"

section \<open>Properties of the memory store\<close>

subsection \<open>Friction scores\<close>

lemma clamp_friction_spec: "clamp_friction x = spec_clamp x (-10) 10"
  by (simp add: clamp_friction_def spec_clamp_def)

lemma clamp_friction_range: "-10 \<le> clamp_friction x \<and> clamp_friction x \<le> 10"
  by (simp add: clamp_friction_def)

lemma clamp_friction_id: "-10 \<le> x \<Longrightarrow> x \<le> 10 \<Longrightarrow> clamp_friction x = x"
  by (simp add: clamp_friction_def)

lemma getById_map:
  assumes "\<And>r. row_id (f r) = row_id r" "\<And>r. row_active (f r) = row_active r"
  shows "getById m (s\<lparr> memory_items := map f (memory_items s) \<rparr>)
         = (case filter (\<lambda>r. row_id r = m \<and> row_active r) (memory_items s) of
              [] \<Rightarrow> None | row # _ \<Rightarrow> Some (rowToMemory (f row)))"
proof -
  have "filter (\<lambda>r. row_id r = m \<and> row_active r) (map f (memory_items s))
        = map f (filter (\<lambda>r. row_id r = m \<and> row_active r) (memory_items s))"
    by (simp add: filter_map o_def assms)
  then show ?thesis
    by (simp add: getById_def split: list.splits)
qed

lemma getById_has_row:
  "getById m s = Some item \<Longrightarrow> m \<in> set (map row_id (memory_items s))"
proof -
  assume "getById m s = Some item"
  then obtain row rest where
    f: "filter (\<lambda>r. row_id r = m \<and> row_active r) (memory_items s) = row # rest"
    by (auto simp: getById_def split: list.splits)
  have "row \<in> set (filter (\<lambda>r. row_id r = m \<and> row_active r) (memory_items s))"
    unfolding f by simp
  then have "row \<in> set (memory_items s)" "row_id row = m" by simp_all
  then show ?thesis by force
qed

lemma score_of_has_row:
  "score_of m s = Some x \<Longrightarrow> m \<in> set (map row_id (memory_items s))"
  by (auto simp: score_of_def dest: getById_has_row)

lemma score_of_recordFrictionEvent:
  assumes "i \<notin> set (map fe_id (friction_events s))"
    and "m \<in> set (map row_id (memory_items s))"
  shows "fst (recordFrictionEvent i m t d c now s) = Inr i \<and>
         score_of m (snd (recordFrictionEvent i m t d c now s))
           = map_option (\<lambda>x. friction_step x d) (score_of m s)"
proof -
  let ?f = "\<lambda>r. if row_id r = m
                 then r\<lparr> friction_score := clamp_friction (friction_score r + d), updated_at := now \<rparr>
                 else r"
  let ?s1 = "s\<lparr> memory_items := map ?f (memory_items s) \<rparr>"
  have g: "getById m ?s1
         = (case filter (\<lambda>r. row_id r = m \<and> row_active r) (memory_items s) of
              [] \<Rightarrow> None | row # _ \<Rightarrow> Some (rowToMemory (?f row)))"
    by (rule getById_map) auto
  have h: "getById m (s\<lparr> friction_events := ev, memory_items := rows \<rparr>)
           = getById m (s\<lparr> memory_items := rows \<rparr>)" for ev rows
    by (simp add: getById_def)
  have run: "recordFrictionEvent i m t d c now s
       = (Inr i, s\<lparr> friction_events := friction_events s @
                  [\<lparr> fe_id = i, fe_memory_id = m, fe_event_type = t,
                     fe_delta = d, fe_context = c, fe_created_at = now \<rparr>],
               memory_items := map ?f (memory_items s) \<rparr>)"
    using assms by (simp add: recordFrictionEvent_def)
  show ?thesis
  proof (cases "filter (\<lambda>r. row_id r = m \<and> row_active r) (memory_items s)")
    case Nil
    with g show ?thesis
      by (simp add: run score_of_def h) (simp add: getById_def)
  next
    case (Cons row rest)
    then have "row \<in> set (filter (\<lambda>r. row_id r = m \<and> row_active r) (memory_items s))"
      by simp
    then have "row_id row = m" by simp
    with Cons g show ?thesis
      by (simp add: run score_of_def h)
         (simp add: getById_def rowToMemory_def Let_def friction_step_def)
  qed
qed

lemma recordFrictionEvent_events:
  "i \<notin> set (map fe_id (friction_events s)) \<Longrightarrow> m \<in> set (map row_id (memory_items s)) \<Longrightarrow>
   set (map fe_id (friction_events (snd (recordFrictionEvent i m t d c now s))))
     = insert i (set (map fe_id (friction_events s)))"
  by (simp add: recordFrictionEvent_def)

lemma recordFrictionEvents_score:
  "score_of m s = Some x \<Longrightarrow> distinct (map fst evs) \<Longrightarrow>
   set (map fst evs) \<inter> set (map fe_id (friction_events s)) = {} \<Longrightarrow>
   score_after m evs s = Some (foldl friction_step x (map event_delta evs))"
proof (induction evs arbitrary: s x)
  case Nil
  then show ?case by (simp add: score_after_def)
next
  case (Cons ev evs)
  obtain i t d c now where ev: "ev = (i, t, d, c, now)" by (cases ev) auto
  let ?s1 = "snd (recordFrictionEvent i m t d c now s)"
  from Cons.prems ev have fresh: "i \<notin> set (map fe_id (friction_events s))" by auto
  from Cons.prems(1) have row: "m \<in> set (map row_id (memory_items s))"
    by (rule score_of_has_row)
  from score_of_recordFrictionEvent [OF fresh row, of t d c now] Cons.prems(1)
  have ok: "fst (recordFrictionEvent i m t d c now s) = Inr i"
    and sc: "score_of m ?s1 = Some (friction_step x d)" by auto
  have ev1: "set (map fe_id (friction_events ?s1)) = insert i (set (map fe_id (friction_events s)))"
    using fresh row by (rule recordFrictionEvent_events)
  have d1: "distinct (map fst evs)" using Cons.prems(2) by simp
  have f1: "set (map fst evs) \<inter> set (map fe_id (friction_events ?s1)) = {}"
    using Cons.prems(2,3) ev ev1 by auto
  have "score_after m evs ?s1 = Some (foldl friction_step (friction_step x d) (map event_delta evs))"
    using Cons.IH [OF sc d1 f1] .
  moreover have "score_after m (ev # evs) s = score_after m evs ?s1"
    using ok ev by (cases "recordFrictionEvent i m t d c now s") (simp add: score_after_def)
  moreover have "event_delta ev = d" by (simp add: ev event_delta_def)
  ultimately show ?case by simp
qed

lemma foldl_friction_step_range:
  "-10 \<le> x \<Longrightarrow> x \<le> 10 \<Longrightarrow>
   -10 \<le> foldl friction_step x ds \<and> foldl friction_step x ds \<le> 10"
  by (induction ds arbitrary: x) (simp_all add: friction_step_def clamp_friction_range)

lemma foldl_friction_step_unsaturated:
  "(\<forall>k<length ds. \<bar>sum_list (take k ds)\<bar> \<le> 10) \<Longrightarrow>
   foldl friction_step 0 ds = spec_clamp (sum_list ds) (-10) 10"
proof (induction ds rule: rev_induct)
  case Nil
  then show ?case by (simp add: spec_clamp_def)
next
  case (snoc d ds)
  have pre: "\<forall>k<length ds. \<bar>sum_list (take k ds)\<bar> \<le> 10"
  proof (intro allI impI)
    fix k assume k: "k < length ds"
    with snoc.prems have "\<bar>sum_list (take k (ds @ [d]))\<bar> \<le> 10" by simp
    with k show "\<bar>sum_list (take k ds)\<bar> \<le> 10" by simp
  qed
  have "length ds < length (ds @ [d])" by simp
  with snoc.prems have "\<bar>sum_list (take (length ds) (ds @ [d]))\<bar> \<le> 10" by blast
  then have "\<bar>sum_list ds\<bar> \<le> 10" by simp
  with snoc.IH [OF pre] have "foldl friction_step 0 ds = sum_list ds"
    by (auto simp: spec_clamp_def)
  moreover have "foldl friction_step 0 (ds @ [d]) = friction_step (foldl friction_step 0 ds) d"
    by simp
  ultimately have "foldl friction_step 0 (ds @ [d]) = friction_step (sum_list ds) d"
    by simp
  moreover have "friction_step (sum_list ds) d = spec_clamp (sum_list (ds @ [d])) (-10) 10"
    by (simp add: friction_step_def clamp_friction_spec)
  ultimately show ?case by (simp only:)
qed

text \<open>
  C1, as the code has it. For a record whose score is 0 and a run of
  \<open>recordFrictionEvent\<close> calls on it with fresh, distinct event identifiers, every call
  returns and the record's score is the deltas folded, one at a time, through
  \<open>clamp(score + delta, -10, 10)\<close>. That value lies in \<open>[-10, 10]\<close>, and it is the clamp of
  the sum of the deltas whenever no earlier update was cut off, that is, whenever the
  sum of every proper prefix of the deltas lies in \<open>[-10, 10]\<close>.
\<close>

theorem friction_score_is_iterated_clamp:
  assumes "score_of m s = Some 0"
    and "distinct (map fst evs)"
    and "set (map fst evs) \<inter> set (map fe_id (friction_events s)) = {}"
  shows "score_after m evs s = Some (foldl friction_step 0 (map event_delta evs)) \<and>
         -10 \<le> foldl friction_step 0 (map event_delta evs) \<and>
         foldl friction_step 0 (map event_delta evs) \<le> 10 \<and>
         ((\<forall>k<length evs. \<bar>sum_list (take k (map event_delta evs))\<bar> \<le> 10) \<longrightarrow>
            score_after m evs s = Some (spec_clamp (sum_list (map event_delta evs)) (-10) 10))"
proof -
  have a: "score_after m evs s = Some (foldl friction_step 0 (map event_delta evs))"
    using assms by (rule recordFrictionEvents_score)
  have b: "-10 \<le> foldl friction_step 0 (map event_delta evs) \<and>
           foldl friction_step 0 (map event_delta evs) \<le> 10"
    by (rule foldl_friction_step_range) simp_all
  have c: "foldl friction_step 0 (map event_delta evs)
             = spec_clamp (sum_list (map event_delta evs)) (-10) 10"
    if "\<forall>k<length evs. \<bar>sum_list (take k (map event_delta evs))\<bar> \<le> 10"
    using that by (intro foldl_friction_step_unsaturated) simp
  from a b c show ?thesis by simp
qed

text \<open>Witness for C1: deltas 4, -1, 9 on a new constraint; the prefix sums 0, 4, 3 stay
  in range and the score ends at \<open>clamp(12) = 10\<close>.\<close>

theorem friction_score_is_iterated_clamp_witness:
  "score_after ''m''
     [(''e1'', Acceptance, 4, None, 1), (''e2'', Correction, -1, None, 2),
      (''e3'', Acceptance, 9, None, 3)]
     (snd (addConstraint ''m''
        \<lparr> cc_content = ''Always validate input'', cc_context = None, cc_source = None,
          cc_scope = None, cc_severity = None \<rparr> None 0 empty_store))
   = Some 10"
proof -
  let ?s = "snd (addConstraint ''m''
        \<lparr> cc_content = ''Always validate input'', cc_context = None, cc_source = None,
          cc_scope = None, cc_severity = None \<rparr> None 0 empty_store)"
  let ?evs = "[(''e1'', Acceptance, 4::real, None::string option, 1::nat),
               (''e2'', Correction, -1, None, 2), (''e3'', Acceptance, 9, None, 3)]"
  have h1: "score_of ''m'' ?s = Some 0"
    by (simp add: score_of_def getById_def addConstraint_def add_with_embedding_def
        insert_memory_item_def empty_store_def rowToMemory_def)
  have h2: "distinct (map fst ?evs)" by simp
  have h3: "set (map fst ?evs) \<inter> set (map fe_id (friction_events ?s)) = {}"
    by (simp add: addConstraint_def add_with_embedding_def insert_memory_item_def
        empty_store_def)
  have h4: "\<forall>k<length ?evs. \<bar>sum_list (take k (map event_delta ?evs))\<bar> \<le> 10"
    by (auto simp: event_delta_def less_Suc_eq)
  from friction_score_is_iterated_clamp [OF h1 h2 h3] h4
  have "score_after ''m'' ?evs ?s = Some (spec_clamp (sum_list (map event_delta ?evs)) (-10) 10)"
    by blast
  then show ?thesis by (simp add: event_delta_def spec_clamp_def)
qed

text \<open>Counterexample to C1 as stated: deltas 20 and -5 on a new constraint. The first
  update is cut off at 10, the second brings the score to 5, while the clamp of the sum
  15 is 10.\<close>

theorem friction_score_clamp_of_sum_counterexample:
  "score_after ''m'' [(''e1'', Acceptance, 20, None, 1), (''e2'', Correction, -5, None, 2)]
     (snd (addConstraint ''m''
        \<lparr> cc_content = ''Always validate input'', cc_context = None, cc_source = None,
          cc_scope = None, cc_severity = None \<rparr> None 0 empty_store))
   = Some 5 \<and>
   spec_clamp (sum_list [20, -5]) (-10) 10 = 10"
  by (simp add: score_after_def recordFrictionEvent_def score_of_def getById_def
      addConstraint_def add_with_embedding_def insert_memory_item_def empty_store_def
      rowToMemory_def clamp_friction_def spec_clamp_def)

lemma decayFactor_bounds:
  assumes "h > 0"
  shows "0 \<le> decayFactor h \<and> decayFactor h \<le> 1"
proof -
  have "(1 / 2 :: real) powr (1 / h) \<le> 1"
    using assms by (intro powr_le1) simp_all
  moreover have "0 \<le> (1 / 2 :: real) powr (1 / h)" by simp
  ultimately show ?thesis using assms by (simp add: decayFactor_def)
qed

lemma score_in_range_scale:
  assumes "score_in_range r" "0 \<le> f" "f \<le> 1"
  shows "score_in_range (r\<lparr> friction_score := friction_score r * f, updated_at := now \<rparr>)"
proof -
  have "\<bar>friction_score r * f\<bar> \<le> \<bar>friction_score r\<bar> * 1"
    unfolding abs_mult using assms by (intro mult_left_mono) simp_all
  moreover have "\<bar>friction_score r\<bar> \<le> 10" using assms(1) by (auto simp: score_in_range_def)
  ultimately have "\<bar>friction_score r * f\<bar> \<le> 10" by simp
  then show ?thesis by (simp add: score_in_range_def abs_le_iff)
qed

lemma add_with_embedding_rows:
  "memory_items (snd (add_with_embedding i e (insert_memory_item i t c ctx src md now s) s))
     = memory_items s \<or>
   memory_items (snd (add_with_embedding i e (insert_memory_item i t c ctx src md now s) s))
     = memory_items s @
         [\<lparr> row_id = i, row_type = t, row_content = c, row_context = ctx,
            row_source = src, friction_score = 0, created_at = now, updated_at = now,
            row_active = True, row_metadata = md \<rparr>]"
  by (simp add: add_with_embedding_def insert_memory_item_def setEmbedding_def
      split: option.splits)

lemma add_with_embedding_in_range:
  assumes "list_all score_in_range (memory_items s)"
  shows "list_all score_in_range
           (memory_items (snd (add_with_embedding i e (insert_memory_item i t c ctx src md now s) s)))"
  using add_with_embedding_rows [of i e t c ctx src md now s] assms
  by (auto simp: score_in_range_def)

lemma exec_op_in_range:
  assumes "positive_half_life op" "list_all score_in_range (memory_items s)"
  shows "list_all score_in_range (memory_items (exec_op op s))"
proof (cases op)
  case (AddConstraint i inp e now)
  then show ?thesis using assms(2)
    by (simp add: addConstraint_def add_with_embedding_in_range)
next
  case (AddDecision i inp e now)
  then show ?thesis using assms(2)
    by (simp add: addDecision_def add_with_embedding_in_range)
next
  case (AddHeuristic i inp e now)
  then show ?thesis using assms(2)
    by (simp add: addHeuristic_def add_with_embedding_in_range)
next
  case (RecordFrictionEvent i m t d c now)
  then show ?thesis using assms(2) clamp_friction_range
    by (auto simp: recordFrictionEvent_def list_all_iff score_in_range_def)
next
  case (ApplyFrictionDecay h now)
  have "0 < (case h of None \<Rightarrow> 30 | Some x \<Rightarrow> x)"
    using assms(1) ApplyFrictionDecay by (cases h) simp_all
  then have f: "0 \<le> decayFactor (case h of None \<Rightarrow> 30 | Some x \<Rightarrow> x)"
               "decayFactor (case h of None \<Rightarrow> 30 | Some x \<Rightarrow> x) \<le> 1"
    using decayFactor_bounds by blast+
  show ?thesis using assms(2) ApplyFrictionDecay score_in_range_scale [OF _ f]
    by (auto simp: applyFrictionDecay_def list_all_iff Let_def)
qed

lemma exec_ops_in_range:
  "list_all positive_half_life ops \<Longrightarrow> list_all score_in_range (memory_items s) \<Longrightarrow>
   list_all score_in_range (memory_items (exec_ops ops s))"
  unfolding exec_ops_def
  by (induction ops arbitrary: s) (simp_all add: exec_op_in_range)

lemma getById_row:
  "getById i s = Some item \<Longrightarrow>
   \<exists>row \<in> set (memory_items s). item = rowToMemory row"
proof -
  assume a: "getById i s = Some item"
  then obtain row rest where
    f: "filter (\<lambda>r. row_id r = i \<and> row_active r) (memory_items s) = row # rest"
    and "item = rowToMemory row"
    by (auto simp: getById_def split: list.splits)
  moreover have "row \<in> set (filter (\<lambda>r. row_id r = i \<and> row_active r) (memory_items s))"
    unfolding f by simp
  then have "row \<in> set (memory_items s)" by simp
  ultimately show ?thesis by blast
qed

text \<open>
  C5. After any sequence of record creations, \<open>recordFrictionEvent\<close> calls with arbitrary
  real deltas and \<open>applyFrictionDecay\<close> calls with a positive half-life, run on the new
  database, the friction score of every row of \<open>memory_items\<close>, and so of every record
  that \<open>getById\<close> returns, lies in \<open>[-10, 10]\<close>.
\<close>

theorem friction_score_invariant:
  assumes "list_all positive_half_life ops"
  shows "list_all score_in_range (memory_items (exec_ops ops empty_store)) \<and>
         (\<forall>i item. getById i (exec_ops ops empty_store) = Some item \<longrightarrow>
            -10 \<le> frictionScore item \<and> frictionScore item \<le> 10)"
proof -
  have inv: "list_all score_in_range (memory_items (exec_ops ops empty_store))"
    using assms by (rule exec_ops_in_range) (simp add: empty_store_def)
  have "-10 \<le> frictionScore item \<and> frictionScore item \<le> 10"
    if "getById i (exec_ops ops empty_store) = Some item" for i item
  proof -
    from getById_row [OF that] obtain row where
      "row \<in> set (memory_items (exec_ops ops empty_store))" "item = rowToMemory row" by blast
    with inv show ?thesis
      by (auto simp: list_all_iff score_in_range_def rowToMemory_def Let_def)
  qed
  with inv show ?thesis by blast
qed

text \<open>Witness for C5: a constraint is created, receives a delta of 25 and is decayed
  twice, with the default half-life and with a half-life of 7 days.\<close>

theorem friction_score_invariant_witness:
  "list_all positive_half_life
     [AddConstraint ''m''
        \<lparr> cc_content = ''Always validate input'', cc_context = None, cc_source = None,
          cc_scope = None, cc_severity = None \<rparr> None 0,
      RecordFrictionEvent ''e1'' ''m'' Acceptance 25 None 1,
      ApplyFrictionDecay None 2, ApplyFrictionDecay (Some 7) 3] \<and>
   list_all score_in_range
     (memory_items (exec_ops
        [AddConstraint ''m''
           \<lparr> cc_content = ''Always validate input'', cc_context = None, cc_source = None,
             cc_scope = None, cc_severity = None \<rparr> None 0,
         RecordFrictionEvent ''e1'' ''m'' Acceptance 25 None 1,
         ApplyFrictionDecay None 2, ApplyFrictionDecay (Some 7) 3] empty_store))"
proof -
  have h: "list_all positive_half_life
     [AddConstraint ''m''
        \<lparr> cc_content = ''Always validate input'', cc_context = None, cc_source = None,
          cc_scope = None, cc_severity = None \<rparr> None 0,
      RecordFrictionEvent ''e1'' ''m'' Acceptance 25 None 1,
      ApplyFrictionDecay None 2, ApplyFrictionDecay (Some 7) 3]"
    by simp
  from friction_score_invariant [OF h] h show ?thesis by blast
qed

subsection \<open>Soft delete\<close>

text \<open>What \<open>delete\<close> does: it returns whether a row with the identifier exists, active or
  not, and leaves every such row inactive.\<close>

lemma delete_result:
  "fst (delete i now s) = (i \<in> set (map row_id (memory_items s)))"
  by (auto simp: delete_def Let_def filter_empty_conv)

lemma filter_deactivated:
  "filter (\<lambda>r. row_id r = i \<and> row_active r)
     (map (\<lambda>r. if row_id r = i then r\<lparr> row_active := False, updated_at := now \<rparr> else r) rows)
   = []"
  by (induction rows) simp_all

lemma delete_deactivates:
  "getById i (snd (delete i now s)) = None"
  by (simp add: getById_def delete_def Let_def filter_deactivated)

text \<open>
  C6 at the failing input: a constraint is created and soft-deleted, and \<open>delete\<close> is
  called on it again. The claim has the second call return \<open>false\<close>; the code returns
  \<open>true\<close>, because its \<open>UPDATE\<close> matches the row whether it is active or not.
\<close>

theorem delete_inactive_returns_true:
  "fst (delete ''m1'' 2 (snd (delete ''m1'' 1
      (snd (addConstraint ''m1''
        \<lparr> cc_content = ''Always validate input'', cc_context = None, cc_source = None,
          cc_scope = None, cc_severity = None \<rparr> None 0 empty_store))))) = True"
  by (simp add: delete_def addConstraint_def add_with_embedding_def insert_memory_item_def
      empty_store_def Let_def)

subsection \<open>Embeddings\<close>

text \<open>
  C7, as the code has it. \<open>setEmbedding\<close> with a vector whose length is not 384 fails
  with the dimension-mismatch error and leaves the store as it was. With a vector of
  exactly 384 elements it succeeds when a memory record has the identifier, and then
  changes nothing but the embedding stored under that identifier; when no memory record
  has the identifier it fails on the foreign key and leaves the store as it was. When it
  succeeds with a vector that spans its buffer, what is stored is the vector itself,
  neither shortened nor padded.
\<close>

theorem setEmbedding_dimension_check:
  "(fa_length v \<noteq> 384 \<longrightarrow>
      setEmbedding i v s = (Inl (DimensionMismatch 384 (fa_length v)), s)) \<and>
   (fa_length v = 384 \<and> i \<notin> set (map row_id (memory_items s)) \<longrightarrow>
      setEmbedding i v s = (Inl ForeignKeyViolation, s)) \<and>
   (fa_length v = 384 \<and> i \<in> set (map row_id (memory_items s)) \<longrightarrow>
      fst (setEmbedding i v s) = Inr () \<and>
      (\<forall>j. j \<noteq> i \<longrightarrow>
         memory_embeddings (snd (setEmbedding i v s)) j = memory_embeddings s j) \<and>
      memory_items (snd (setEmbedding i v s)) = memory_items s \<and>
      friction_events (snd (setEmbedding i v s)) = friction_events s \<and>
      (spans_buffer v \<longrightarrow>
         memory_embeddings (snd (setEmbedding i v s)) i = Some (view_elements v) \<and>
         getEmbedding i (snd (setEmbedding i v s)) = Some (view_elements v)))"
  by (simp add: setEmbedding_def getEmbedding_def EMBEDDING_DIM_def spans_buffer_def
      view_elements_def)

text \<open>Witness for C7: on a store with the constraint \<open>m1\<close>, a vector of 100 zeros is
  refused and a vector of 384 zeros is stored; for the identifier \<open>m2\<close>, which no record
  has, the same vector is refused on the foreign key.\<close>

theorem setEmbedding_dimension_check_witness:
  "fst (setEmbedding ''m1'' (float32array (replicate 100 0))
          (exec_ops [AddConstraint ''m1'' (constraint_input ''Use tabs'') None 1] empty_store))
     = Inl (DimensionMismatch 384 100) \<and>
   fst (setEmbedding ''m1'' (float32array (replicate 384 0))
          (exec_ops [AddConstraint ''m1'' (constraint_input ''Use tabs'') None 1] empty_store))
     = Inr () \<and>
   getEmbedding ''m1''
     (snd (setEmbedding ''m1'' (float32array (replicate 384 0))
          (exec_ops [AddConstraint ''m1'' (constraint_input ''Use tabs'') None 1] empty_store)))
     = Some (replicate 384 0) \<and>
   fst (setEmbedding ''m2'' (float32array (replicate 384 0))
          (exec_ops [AddConstraint ''m1'' (constraint_input ''Use tabs'') None 1] empty_store))
     = Inl ForeignKeyViolation"
proof -
  let ?s = "exec_ops [AddConstraint ''m1'' (constraint_input ''Use tabs'') None 1] empty_store"
  have rows: "map row_id (memory_items ?s) = [''m1'']"
    by (simp add: exec_ops_def addConstraint_def add_with_embedding_def
        insert_memory_item_def empty_store_def constraint_input_def)
  have in1: "''m1'' \<in> set (map row_id (memory_items ?s))"
    and out2: "''m2'' \<notin> set (map row_id (memory_items ?s))"
    unfolding rows by simp_all
  have short: "fa_length (float32array (replicate 100 (0::real))) = 100"
    and full: "fa_length (float32array (replicate 384 (0::real))) = 384"
    and spans: "spans_buffer (float32array (replicate 384 (0::real)))"
    and elems: "view_elements (float32array (replicate 384 (0::real))) = replicate 384 0"
    by (simp_all add: float32array_def spans_buffer_def view_elements_def)
  have a: "fst (setEmbedding ''m1'' (float32array (replicate 100 0)) ?s)
             = Inl (DimensionMismatch 384 100)"
    using setEmbedding_dimension_check [of "float32array (replicate 100 0)" "''m1''" ?s]
    by (simp add: short)
  have b: "fst (setEmbedding ''m1'' (float32array (replicate 384 0)) ?s) = Inr () \<and>
           getEmbedding ''m1'' (snd (setEmbedding ''m1'' (float32array (replicate 384 0)) ?s))
             = Some (view_elements (float32array (replicate 384 0)))"
    using setEmbedding_dimension_check [of "float32array (replicate 384 0)" "''m1''" ?s]
      full in1 spans by blast
  have c: "setEmbedding ''m2'' (float32array (replicate 384 0)) ?s
             = (Inl ForeignKeyViolation, ?s)"
    using setEmbedding_dimension_check [of "float32array (replicate 384 0)" "''m2''" ?s]
      full out2 by blast
  from a b c show ?thesis by (simp add: elems)
qed

text \<open>Counterexample to C7 as stated: on the new database, where no memory record has
  the identifier, a vector of exactly 384 elements does not succeed; the insert is
  refused on the foreign key.\<close>

theorem setEmbedding_without_record_counterexample:
  "setEmbedding ''m1'' (float32array (replicate 384 0)) empty_store
     = (Inl ForeignKeyViolation, empty_store)"
  by (simp add: setEmbedding_def float32array_def EMBEDDING_DIM_def empty_store_def)

text \<open>What the amended claim leaves out: a view of 384 floats on a larger buffer passes
  the length check, and the whole buffer is written. \<open>getEmbedding\<close> then finds a blob of
  the wrong size, and \<open>vectorSearch\<close> reads the first 384 floats of the buffer, which are
  not those of the view when the view does not start the buffer.\<close>

lemma setEmbedding_view_on_larger_buffer:
  assumes "fa_length v = 384" "i \<in> set (map row_id (memory_items s))"
    "length (fa_buffer v) \<noteq> 384"
  shows "memory_embeddings (snd (setEmbedding i v s)) i = Some (fa_buffer v)"
    and "getEmbedding i (snd (setEmbedding i v s)) = None"
  using assms by (simp_all add: setEmbedding_def getEmbedding_def EMBEDDING_DIM_def)

text \<open>The stores that runs of operations reach hold blobs of at least \<open>EMBEDDING_DIM\<close>
  floats, which is what \<open>vectorSearch\<close> relies on when it reads a blob.\<close>

lemma setEmbedding_well_sized:
  "embeddings_well_sized s \<Longrightarrow> valid_view v \<Longrightarrow>
   embeddings_well_sized (snd (setEmbedding i v s))"
  by (auto simp: embeddings_well_sized_def setEmbedding_def valid_view_def ran_def)

lemma add_with_embedding_well_sized:
  assumes "embeddings_well_sized s" "\<forall>v. e = Some v \<longrightarrow> valid_view v"
  shows "embeddings_well_sized
           (snd (add_with_embedding i e (insert_memory_item i t c ctx src md now s) s))"
proof (cases "insert_memory_item i t c ctx src md now s")
  case (Inl err)
  with assms show ?thesis by (simp add: add_with_embedding_def)
next
  case (Inr s1)
  then have "memory_embeddings s1 = memory_embeddings s"
    by (auto simp: insert_memory_item_def split: if_splits)
  with assms have s1: "embeddings_well_sized s1"
    by (simp add: embeddings_well_sized_def)
  show ?thesis
  proof (cases e)
    case None
    with Inr s1 show ?thesis by (simp add: add_with_embedding_def)
  next
    case (Some v)
    with assms(2) have "valid_view v" by simp
    from setEmbedding_well_sized [OF s1 this, of i] Inr Some show ?thesis
      by (cases "setEmbedding i v s1") (auto simp: add_with_embedding_def split: sum.splits)
  qed
qed

lemma exec_op_well_sized:
  assumes "embeddings_well_sized s" "op_view_valid op"
  shows "embeddings_well_sized (exec_op op s)"
proof (cases op)
  case (AddConstraint i inp e now)
  with assms have "\<forall>v. e = Some v \<longrightarrow> valid_view v" by auto
  with assms AddConstraint show ?thesis
    by (simp add: addConstraint_def add_with_embedding_well_sized)
next
  case (AddDecision i inp e now)
  with assms have "\<forall>v. e = Some v \<longrightarrow> valid_view v" by auto
  with assms AddDecision show ?thesis
    by (simp add: addDecision_def add_with_embedding_well_sized)
next
  case (AddHeuristic i inp e now)
  with assms have "\<forall>v. e = Some v \<longrightarrow> valid_view v" by auto
  with assms AddHeuristic show ?thesis
    by (simp add: addHeuristic_def add_with_embedding_well_sized)
next
  case (RecordFrictionEvent i m t d c now)
  with assms show ?thesis by (simp add: recordFrictionEvent_def embeddings_well_sized_def)
next
  case (ApplyFrictionDecay h now)
  with assms show ?thesis by (simp add: applyFrictionDecay_def embeddings_well_sized_def Let_def)
qed

lemma exec_ops_well_sized_from:
  "embeddings_well_sized s \<Longrightarrow> list_all op_view_valid ops \<Longrightarrow>
   embeddings_well_sized (exec_ops ops s)"
  unfolding exec_ops_def by (induction ops arbitrary: s) (simp_all add: exec_op_well_sized)

lemma exec_ops_well_sized:
  "list_all op_view_valid ops \<Longrightarrow> embeddings_well_sized (exec_ops ops empty_store)"
proof (rule exec_ops_well_sized_from)
  show "embeddings_well_sized empty_store"
    by (simp add: embeddings_well_sized_def empty_store_def)
qed

subsection \<open>Cosine similarity\<close>

lemma cosine_loop_equal_length:
  "length a = length b \<Longrightarrow>
   cosine_loop a b (d, na, nb)
     = Some (d + sum_list (map2 (*) a b), na + sum_list (map (\<lambda>x. x * x) a),
             nb + sum_list (map (\<lambda>x. x * x) b))"
proof (induction a b "(d, na, nb)" arbitrary: d na nb rule: cosine_loop.induct)
  case (1 b)
  then show ?case by simp
next
  case (2 x xs)
  then show ?case by simp
next
  case (3 x xs y ys dotProduct normA normB)
  then show ?case by (simp add: algebra_simps)
qed

lemma cosine_loop_short:
  "length b < length a \<Longrightarrow> cosine_loop a b acc = None"
  by (induction a b acc rule: cosine_loop.induct) simp_all

text \<open>
  C8. For vectors of equal length \<open>cosineSimilarity\<close> returns a number, never NaN: it is
  \<open>dot(a,b) / (|a| * |b|)\<close> when both norms are non-zero and exactly 0 when either norm
  is 0.
\<close>

theorem cosineSimilarity_formula:
  assumes "length a = length b"
  shows "cosineSimilarity a b
         = Some (if spec_norm a = 0 \<or> spec_norm b = 0 then 0
                 else spec_dot a b / (spec_norm a * spec_norm b))"
  using assms
  by (simp add: cosineSimilarity_def cosine_loop_equal_length spec_norm_def spec_dot_def)

text \<open>Witness for C8: \<open>[3, 4]\<close> against itself has similarity 1, the zero vector against
  \<open>[3, 4]\<close> has similarity 0.\<close>

theorem cosineSimilarity_formula_witness:
  "cosineSimilarity [3, 4] [3, 4] = Some 1 \<and> cosineSimilarity [0, 0] [3, 4] = Some 0"
proof -
  have n: "spec_norm [3, 4] = 5" 
  proof -
    have "sqrt 25 = (5 :: real)" by (rule real_sqrt_unique) simp_all
    then show ?thesis by (simp add: spec_norm_def)
  qed
  have z: "spec_norm [0, 0] = 0" by (simp add: spec_norm_def)
  have d: "spec_dot [3, 4] [3, 4] = 25" by (simp add: spec_dot_def)
  from cosineSimilarity_formula [of "[3, 4]" "[3, 4]"] cosineSimilarity_formula [of "[0, 0]" "[3, 4]"]
  show ?thesis by (simp add: n z d)
qed

section \<open>Properties of the retriever\<close>

subsection \<open>Sorting and slicing\<close>

lemma set_js_insert: "set (js_insert cmp x xs) = insert x (set xs)"
  by (induction xs) auto

lemma set_js_sort: "set (js_sort cmp xs) = set xs"
  unfolding js_sort_def by (induction xs) (simp_all add: set_js_insert)

lemma length_js_insert: "length (js_insert cmp x xs) = Suc (length xs)"
  by (induction xs) simp_all

lemma length_js_sort: "length (js_sort cmp xs) = length xs"
  unfolding js_sort_def by (induction xs) (simp_all add: length_js_insert)

lemma descending_js_insert:
  assumes "sorted_wrt (\<lambda>a b. num_geq (key a) (key b)) xs"
    and "\<forall>y\<in>set (x # xs). key y \<noteq> None"
  shows "sorted_wrt (\<lambda>a b. num_geq (key a) (key b))
           (js_insert (\<lambda>a b. num_sub (key b) (key a)) x xs)"
  using assms
proof (induction xs)
  case Nil
  then show ?case by simp
next
  case (Cons y ys)
  obtain kx ky where k: "key x = Some kx" "key y = Some ky"
    using Cons.prems(2) by auto
  show ?case
  proof (cases "num_pos (num_sub (key y) (key x))")
    case True
    then have "kx < ky" using k by (simp add: num_pos_def num_sub_def)
    then have "num_geq (key y) (key x)" using k by (simp add: num_geq_def)
    moreover have "sorted_wrt (\<lambda>a b. num_geq (key a) (key b))
                     (js_insert (\<lambda>a b. num_sub (key b) (key a)) x ys)"
      using Cons by simp
    ultimately show ?thesis
      using True Cons.prems(1) by (auto simp: set_js_insert)
  next
    case False
    then have le: "ky \<le> kx" using k by (simp add: num_pos_def num_sub_def)
    have "num_geq (key x) (key z)" if "z \<in> set (y # ys)" for z
    proof -
      have "num_geq (key y) (key z) \<or> z = y" using that Cons.prems(1) by auto
      moreover have "key z \<noteq> None" using that Cons.prems(2) by auto
      then obtain kz where "key z = Some kz" by (cases "key z") simp_all
      moreover note le k
      ultimately show ?thesis by (auto simp: num_geq_def)
    qed
    then show ?thesis using False Cons.prems(1) by simp
  qed
qed

lemma descending_js_sort:
  assumes "\<forall>y\<in>set xs. key y \<noteq> None"
  shows "sorted_wrt (\<lambda>a b. num_geq (key a) (key b))
           (js_sort (\<lambda>a b. num_sub (key b) (key a)) xs)"
  using assms unfolding js_sort_def
proof (induction xs)
  case Nil
  then show ?case by simp
next
  case (Cons x xs)
  have "\<forall>y\<in>set (x # foldr (js_insert (\<lambda>a b. num_sub (key b) (key a))) xs []). key y \<noteq> None"
    using Cons.prems set_js_sort [of "\<lambda>a b. num_sub (key b) (key a)" xs]
    by (simp add: js_sort_def)
  with Cons show ?case by (simp add: descending_js_insert)
qed

lemma js_slice0_take: "\<exists>n. js_slice0 e xs = take n xs"
  by (auto simp: js_slice0_def)

lemma set_js_slice0: "set (js_slice0 e xs) \<subseteq> set xs"
  using js_slice0_take [of e xs] by (auto dest: in_set_takeD)

lemma length_js_slice0: "0 \<le> e \<Longrightarrow> int (length (js_slice0 e xs)) \<le> e"
  by (simp add: js_slice0_def)

lemma sorted_wrt_js_slice0: "sorted_wrt P xs \<Longrightarrow> sorted_wrt P (js_slice0 e xs)"
  using js_slice0_take [of e xs] by (auto simp: sorted_wrt_take)

subsection \<open>Evaluating retrievals on the stand-in stores\<close>

lemma cosine_loop_zeros:
  "cosine_loop (replicate n 0) (replicate n 0) acc = Some acc"
proof (induction n arbitrary: acc)
  case 0
  then show ?case by simp
next
  case (Suc n)
  then show ?case by (cases acc) simp
qed

lemma cosineSimilarity_axis:
  "cosineSimilarity (axis_vector x) (axis_vector y)
     = Some (if x = 0 \<or> y = 0 then 0 else x * y / (\<bar>x\<bar> * \<bar>y\<bar>))"
  by (simp add: cosineSimilarity_def axis_vector_def cosine_loop_zeros)

lemma length_axis_vector: "length (axis_vector x) = 384"
  by (simp add: axis_vector_def)

lemma take_axis_vector: "take 384 (axis_vector x) = axis_vector x"
  by (simp add: axis_vector_def)

lemmas store_eval =
  exec_ops_def addConstraint_def addDecision_def addHeuristic_def add_with_embedding_def
  insert_memory_item_def setEmbedding_def EMBEDDING_DIM_def float32array_def
  length_axis_vector take_axis_vector
  empty_store_def recordFrictionEvent_def clamp_friction_def
  constraint_input_def decision_input_def heuristic_input_def empty_metadata_def

lemmas retrieve_eval =
  joined_rows_def List.map_filter_def retrieved_ids_def retrieve_def constant_embedder_def
  default_options_def opt_limit_def opt_minSimilarity_def opt_includeFriction_def
  search_types_def vectorSearch_def cosineSimilarity_axis js_sort_def js_slice0_def
  rowToMemory_def num_sub_def num_pos_def num_ge_def rerank_def applyFrictionModifier_def

subsection \<open>Ranking\<close>

lemma retrieve_None_iff:
  "retrieve embedder s query options = None \<longleftrightarrow> embedder query = None"
  by (simp add: retrieve_def Let_def split: option.splits)

lemma retrieve_Some:
  "embedder query = Some q \<Longrightarrow>
   retrieve embedder s query options =
     Some (js_slice0 (opt_limit options)
        (js_sort (\<lambda>a b. num_sub (adjustedScore b) (adjustedScore a))
           (map (rerank (opt_includeFriction options))
              (filter (\<lambda>c. num_ge (cand_similarity c) (opt_minSimilarity options))
                 (vectorSearch q \<lparr> vs_limit = opt_limit options * 3,
                                   vs_types = search_types options \<rparr> s)))))"
  by (simp add: retrieve_def Let_def)

lemma rerank_fields:
  assumes "cand_similarity c = Some x"
  shows "rr_memory (rerank inc c) = cand_memory c"
    and "similarity (rerank inc c) = Some x"
    and "adjustedScore (rerank inc c)
           = Some (if inc then x * (1 + 0.5 * tanh (frictionScore (cand_memory c) / 3)) else x)"
  using assms by (simp_all add: rerank_def applyFrictionModifier_def)

lemma length_vectorSearch:
  "0 \<le> vs_limit options \<Longrightarrow> int (length (vectorSearch q options s)) \<le> vs_limit options"
  by (simp add: vectorSearch_def length_js_slice0)

text \<open>
  C2, as the code has it. When the embedding provider fails, \<open>retrieve\<close> fails; when it
  answers, \<open>retrieve\<close> returns a list in which every result has a similarity that is a
  number and at least \<open>minSimilarity\<close> (default 0.3), has
  \<open>adjustedScore = similarity * (1 + 0.5 * tanh(frictionScore / 3))\<close> when friction
  adjustment is enabled (the default) and \<open>adjustedScore = similarity\<close> otherwise, and is
  one of the candidates that \<open>vectorSearch\<close> returned for the limit \<open>limit * 3\<close>; the list
  is in descending order of \<open>adjustedScore\<close>; and whenever \<open>limit\<close> (default 10) is not
  negative, the list has at most \<open>limit\<close> elements and \<open>vectorSearch\<close> was asked for, and
  returned, at most \<open>limit * 3\<close> candidates.
\<close>

theorem retrieve_ranking:
  "(embedder query = None \<longrightarrow> retrieve embedder s query options = None) \<and>
   (\<forall>q. embedder query = Some q \<longrightarrow>
      (\<exists>rs. retrieve embedder s query options = Some rs \<and>
         (\<forall>r\<in>set rs. \<exists>x.
             similarity r = Some x \<and> opt_minSimilarity options \<le> x \<and>
             adjustedScore r =
               Some (if opt_includeFriction options
                     then x * (1 + 0.5 * tanh (frictionScore (rr_memory r) / 3)) else x) \<and>
             \<lparr> cand_memory = rr_memory r, cand_similarity = similarity r \<rparr>
               \<in> set (vectorSearch q \<lparr> vs_limit = opt_limit options * 3,
                                        vs_types = search_types options \<rparr> s)) \<and>
         sorted_wrt (\<lambda>a b. num_geq (adjustedScore a) (adjustedScore b)) rs \<and>
         (0 \<le> opt_limit options \<longrightarrow>
            int (length rs) \<le> opt_limit options \<and>
            int (length (vectorSearch q \<lparr> vs_limit = opt_limit options * 3,
                                          vs_types = search_types options \<rparr> s))
              \<le> opt_limit options * 3))) \<and>
   (ro_limit options = None \<longrightarrow> opt_limit options = 10) \<and>
   (ro_minSimilarity options = None \<longrightarrow> opt_minSimilarity options = 0.3) \<and>
   (ro_includeFriction options = None \<longrightarrow> opt_includeFriction options)"
proof (intro conjI allI impI)
  show "retrieve embedder s query options = None" if "embedder query = None"
    using that by (simp add: retrieve_None_iff)
next
  fix q assume q: "embedder query = Some q"
  let ?cands = "vectorSearch q \<lparr> vs_limit = opt_limit options * 3,
                                 vs_types = search_types options \<rparr> s"
  let ?kept = "filter (\<lambda>c. num_ge (cand_similarity c) (opt_minSimilarity options)) ?cands"
  let ?ranked = "map (rerank (opt_includeFriction options)) ?kept"
  let ?sorted = "js_sort (\<lambda>a b. num_sub (adjustedScore b) (adjustedScore a)) ?ranked"
  let ?rs = "js_slice0 (opt_limit options) ?sorted"
  have eq: "retrieve embedder s query options = Some ?rs"
    using q by (rule retrieve_Some)
  have elem: "\<exists>x. similarity r = Some x \<and> opt_minSimilarity options \<le> x \<and>
             adjustedScore r =
               Some (if opt_includeFriction options
                     then x * (1 + 0.5 * tanh (frictionScore (rr_memory r) / 3)) else x) \<and>
             \<lparr> cand_memory = rr_memory r, cand_similarity = similarity r \<rparr> \<in> set ?cands"
    if "r \<in> set ?ranked" for r
  proof -
    from that obtain c where c: "c \<in> set ?cands"
      "num_ge (cand_similarity c) (opt_minSimilarity options)"
      "r = rerank (opt_includeFriction options) c"
      by auto
    from c(2) obtain x where x: "cand_similarity c = Some x" "opt_minSimilarity options \<le> x"
      by (auto simp: num_ge_def split: option.splits)
    have e: "\<lparr> cand_memory = rr_memory r, cand_similarity = similarity r \<rparr> = c"
      using c(3) x(1) by (simp add: rerank_fields)
    have mem: "\<lparr> cand_memory = rr_memory r, cand_similarity = similarity r \<rparr> \<in> set ?cands"
      unfolding e by (rule c(1))
    have f1: "similarity r = Some x"
      using c(3) x(1) by (simp add: rerank_fields)
    have f2: "adjustedScore r =
               Some (if opt_includeFriction options
                     then x * (1 + 0.5 * tanh (frictionScore (rr_memory r) / 3)) else x)"
      using c(3) x(1) by (simp add: rerank_fields)
    from mem f1 f2 x(2) show ?thesis by blast
  qed
  have sub: "set ?rs \<subseteq> set ?ranked"
    using set_js_slice0 [of "opt_limit options" ?sorted] by (simp add: set_js_sort)
  have some: "\<forall>r\<in>set ?ranked. adjustedScore r \<noteq> None"
    using elem by fastforce
  have sorted: "sorted_wrt (\<lambda>a b. num_geq (adjustedScore a) (adjustedScore b)) ?rs"
    by (intro sorted_wrt_js_slice0 descending_js_sort some)
  have len: "int (length ?rs) \<le> opt_limit options \<and>
             int (length ?cands) \<le> opt_limit options * 3" if "0 \<le> opt_limit options"
    using that length_vectorSearch [of "\<lparr> vs_limit = opt_limit options * 3,
                                 vs_types = search_types options \<rparr>" q s]
    by (simp add: length_js_slice0)
  from eq elem sub sorted len
  show "\<exists>rs. retrieve embedder s query options = Some rs \<and>
         (\<forall>r\<in>set rs. \<exists>x.
             similarity r = Some x \<and> opt_minSimilarity options \<le> x \<and>
             adjustedScore r =
               Some (if opt_includeFriction options
                     then x * (1 + 0.5 * tanh (frictionScore (rr_memory r) / 3)) else x) \<and>
             \<lparr> cand_memory = rr_memory r, cand_similarity = similarity r \<rparr> \<in> set ?cands) \<and>
         sorted_wrt (\<lambda>a b. num_geq (adjustedScore a) (adjustedScore b)) rs \<and>
         (0 \<le> opt_limit options \<longrightarrow>
            int (length rs) \<le> opt_limit options \<and>
            int (length ?cands) \<le> opt_limit options * 3)"
    by (intro exI [of _ ?rs]) blast
qed (simp_all add: opt_limit_def opt_minSimilarity_def opt_includeFriction_def)

lemma decisions_store_ranked:
  "retrieved_ids (retrieve (constant_embedder (axis_vector 1)) decisions_store ''anything''
     (default_options\<lparr> ro_limit := Some 2 \<rparr>)) = Some [''d3'', ''d1'']"
  by (simp add: decisions_store_def store_eval retrieve_eval)

lemma decisions_store_negative_limit:
  "retrieved_ids (retrieve (constant_embedder (axis_vector 1)) decisions_store ''anything''
     (default_options\<lparr> ro_limit := Some (-1) \<rparr>)) = Some [''d1'']"
  by (simp add: decisions_store_def store_eval retrieve_eval)

text \<open>Witness for C2: five decisions of equal similarity, the third with friction 6,
  and a limit of 2; the third decision comes first.\<close>

theorem retrieve_ranking_witness:
  "retrieved_ids (retrieve (constant_embedder (axis_vector 1)) decisions_store ''anything''
     (default_options\<lparr> ro_limit := Some 2 \<rparr>)) = Some [''d3'', ''d1''] \<and>
   (\<exists>rs. retrieve (constant_embedder (axis_vector 1)) decisions_store ''anything''
           (default_options\<lparr> ro_limit := Some 2 \<rparr>) = Some rs \<and>
         (\<forall>r\<in>set rs. num_ge (similarity r) 0.3) \<and>
         sorted_wrt (\<lambda>a b. num_geq (adjustedScore a) (adjustedScore b)) rs \<and>
         int (length rs) \<le> 2)"
proof -
  let ?opts = "default_options\<lparr> ro_limit := Some 2 \<rparr>"
  have e: "constant_embedder (axis_vector 1) ''anything'' = Some (axis_vector 1)"
    by (simp add: constant_embedder_def)
  have l: "opt_limit ?opts = 2" "opt_minSimilarity ?opts = 0.3"
    by (simp_all add: opt_limit_def opt_minSimilarity_def default_options_def)
  from retrieve_ranking [of "constant_embedder (axis_vector 1)" "''anything''"
      decisions_store ?opts] e l
  obtain rs where rs:
    "retrieve (constant_embedder (axis_vector 1)) decisions_store ''anything'' ?opts = Some rs"
    "\<forall>r\<in>set rs. \<exists>x. similarity r = Some x \<and> 0.3 \<le> x"
    "sorted_wrt (\<lambda>a b. num_geq (adjustedScore a) (adjustedScore b)) rs"
    "int (length rs) \<le> 2"
    by fastforce
  from rs(2) have "\<forall>r\<in>set rs. num_ge (similarity r) 0.3"
    by (fastforce simp: num_ge_def)
  with rs decisions_store_ranked show ?thesis by blast
qed

text \<open>Counterexample to C2 as stated: with \<open>limit = -1\<close> both \<open>slice\<close> calls count from
  the end of the array. Of the five decisions \<open>vectorSearch\<close> keeps two and \<open>retrieve\<close>
  returns one, which is more than \<open>limit\<close>.\<close>

theorem retrieve_negative_limit_counterexample:
  "retrieved_ids (retrieve (constant_embedder (axis_vector 1)) decisions_store ''anything''
     (default_options\<lparr> ro_limit := Some (-1) \<rparr>)) = Some [''d1''] \<and>
   opt_limit (default_options\<lparr> ro_limit := Some (-1) \<rparr>) = -1 \<and>
   \<not> int (length [''d1'']) \<le> opt_limit (default_options\<lparr> ro_limit := Some (-1) \<rparr>)"
  by (simp add: decisions_store_negative_limit) (simp add: opt_limit_def default_options_def)

subsection \<open>Retrieval for context building\<close>

lemma retrieveForContext_None_iff:
  "retrieveForContext embedder s prompt options = None \<longleftrightarrow> embedder prompt = None"
proof (cases "embedder prompt")
  case None
  then have "retrieveDecisions embedder s prompt n = None" for n
    by (simp add: retrieveDecisions_def retrieve_None_iff)
  then show ?thesis using None by (simp add: retrieveForContext_def Let_def)
next
  case (Some q)
  let ?maxD = "case maxDecisions options of None \<Rightarrow> 5 | Some n \<Rightarrow> n"
  let ?maxH = "case maxHeuristics options of None \<Rightarrow> 3 | Some n \<Rightarrow> n"
  from Some obtain ds where ds: "retrieveDecisions embedder s prompt ?maxD = Some ds"
    using retrieve_None_iff [of embedder s prompt] by (fastforce simp: retrieveDecisions_def)
  from Some obtain hs where hs: "retrieveHeuristics embedder s prompt ?maxH = Some hs"
    using retrieve_None_iff [of embedder s prompt] by (fastforce simp: retrieveHeuristics_def)
  have "retrieveForContext embedder s prompt options \<noteq> None"
    using ds hs by (simp add: retrieveForContext_def Let_def)
  with Some show ?thesis by simp
qed

lemma retrieveForContext_constraints:
  "retrieveForContext embedder s prompt options = Some r \<Longrightarrow>
   constraints r = getAllConstraints s"
  by (auto simp: retrieveForContext_def Let_def split: option.splits if_splits)

lemma set_order_by_created_desc: "set (order_by_created_desc rows) = set rows"
  by (simp add: order_by_created_desc_def)

lemma length_order_by_created_desc: "length (order_by_created_desc rows) = length rows"
  by (simp add: order_by_created_desc_def)

text \<open>
  C3. For every store and every prompt, \<open>retrieveForContext\<close> fails only when the
  embedding provider fails on the prompt; otherwise it returns, and its \<open>constraints\<close>
  field is \<open>getAllConstraints\<close> of the store, in which neither the prompt nor an embedding
  nor a similarity threshold occurs: exactly the active rows of type constraint, each
  once.
\<close>

theorem constraints_always_complete:
  "(embedder prompt = None \<longrightarrow> retrieveForContext embedder s prompt options = None) \<and>
   (embedder prompt \<noteq> None \<longrightarrow>
      (\<exists>r. retrieveForContext embedder s prompt options = Some r \<and>
           constraints r = getAllConstraints s)) \<and>
   set (getAllConstraints s)
     = rowToMemory ` {row \<in> set (memory_items s). row_type row = Constraint \<and> row_active row} \<and>
   length (getAllConstraints s)
     = length (filter (\<lambda>row. row_type row = Constraint \<and> row_active row) (memory_items s))"
proof (intro conjI impI)
  show "retrieveForContext embedder s prompt options = None" if "embedder prompt = None"
    using that by (simp add: retrieveForContext_None_iff)
  show "\<exists>r. retrieveForContext embedder s prompt options = Some r \<and>
           constraints r = getAllConstraints s" if "embedder prompt \<noteq> None"
  proof -
    from that obtain r where "retrieveForContext embedder s prompt options = Some r"
      using retrieveForContext_None_iff [of embedder s prompt options] by auto
    then show ?thesis using retrieveForContext_constraints by blast
  qed
  show "set (getAllConstraints s)
     = rowToMemory ` {row \<in> set (memory_items s). row_type row = Constraint \<and> row_active row}"
    by (simp add: getAllConstraints_def getByType_def set_order_by_created_desc)
  show "length (getAllConstraints s)
     = length (filter (\<lambda>row. row_type row = Constraint \<and> row_active row) (memory_items s))"
    by (simp add: getAllConstraints_def getByType_def length_order_by_created_desc)
qed

lemma project_constraints:
  "map mem_content (getAllConstraints project_store)
     = [''Use tabs'', ''Never use var'', ''Always validate input'']"
  by (simp add: project_store_def store_eval getAllConstraints_def getByType_def
      order_by_created_desc_def rowToMemory_def)

text \<open>Witness for C3: three constraints in the store and a prompt that has nothing to
  do with them; all three come back, newest first.\<close>

theorem constraints_always_complete_witness:
  "\<exists>r. retrieveForContext (constant_embedder (axis_vector 1)) project_store
          ''Add a login endpoint''
          \<lparr> maxDecisions = None, maxHeuristics = None, includeHeuristics = None \<rparr> = Some r \<and>
       map mem_content (constraints r)
         = [''Use tabs'', ''Never use var'', ''Always validate input'']"
proof -
  have e: "constant_embedder (axis_vector 1) ''Add a login endpoint'' \<noteq> None"
    by (simp add: constant_embedder_def)
  from constraints_always_complete [of "constant_embedder (axis_vector 1)"
      "''Add a login endpoint''" project_store
      "\<lparr> maxDecisions = None, maxHeuristics = None, includeHeuristics = None \<rparr>"] e
  obtain r where
    "retrieveForContext (constant_embedder (axis_vector 1)) project_store
          ''Add a login endpoint''
          \<lparr> maxDecisions = None, maxHeuristics = None, includeHeuristics = None \<rparr> = Some r"
    "constraints r = getAllConstraints project_store"
    by blast
  with project_constraints show ?thesis by simp
qed

text \<open>
  C4. When \<open>retrieveForContext\<close> returns (it does whenever the embedding provider answers),
  its \<open>heuristics\<close> field is the result of the heuristic retrieval (type heuristic,
  \<open>minSimilarity\<close> 0.35, limit \<open>maxHeuristics\<close>, default 3) if \<open>includeHeuristics\<close> is
  \<open>true\<close>, or is not \<open>false\<close> while \<open>detectsAmbiguity(prompt)\<close> holds; in every other case
  it is the empty list.
\<close>

theorem heuristics_only_when_gated:
  "(embedder prompt = None \<longrightarrow> retrieveForContext embedder s prompt options = None) \<and>
   (embedder prompt \<noteq> None \<longrightarrow>
      (\<exists>r. retrieveForContext embedder s prompt options = Some r \<and>
         isAmbiguous r = detectsAmbiguity prompt \<and>
         (if includeHeuristics options = Some True \<or>
             (includeHeuristics options \<noteq> Some False \<and> detectsAmbiguity prompt)
          then retrieve embedder s prompt
                 \<lparr> ro_type = Some (OneType Heuristic),
                   ro_limit = Some (case maxHeuristics options of None \<Rightarrow> 3 | Some n \<Rightarrow> n),
                   ro_minSimilarity = Some 0.35, ro_includeFriction = None \<rparr>
               = Some (heuristics r)
          else heuristics r = [])))"
proof (intro conjI impI)
  show "retrieveForContext embedder s prompt options = None" if "embedder prompt = None"
    using that by (simp add: retrieveForContext_None_iff)
  assume "embedder prompt \<noteq> None"
  then obtain r where r: "retrieveForContext embedder s prompt options = Some r"
    using retrieveForContext_None_iff [of embedder s prompt options] by auto
  then have "isAmbiguous r = detectsAmbiguity prompt"
    by (auto simp: retrieveForContext_def Let_def split: option.splits if_splits)
  moreover from r have
    "if includeHeuristics options = Some True \<or>
        (includeHeuristics options \<noteq> Some False \<and> detectsAmbiguity prompt)
     then retrieve embedder s prompt
            \<lparr> ro_type = Some (OneType Heuristic),
              ro_limit = Some (case maxHeuristics options of None \<Rightarrow> 3 | Some n \<Rightarrow> n),
              ro_minSimilarity = Some 0.35, ro_includeFriction = None \<rparr>
          = Some (heuristics r)
     else heuristics r = []"
    by (auto simp: retrieveForContext_def retrieveHeuristics_def Let_def
        split: option.splits if_splits)
  ultimately show "\<exists>r. retrieveForContext embedder s prompt options = Some r \<and>
         isAmbiguous r = detectsAmbiguity prompt \<and>
         (if includeHeuristics options = Some True \<or>
             (includeHeuristics options \<noteq> Some False \<and> detectsAmbiguity prompt)
          then retrieve embedder s prompt
                 \<lparr> ro_type = Some (OneType Heuristic),
                   ro_limit = Some (case maxHeuristics options of None \<Rightarrow> 3 | Some n \<Rightarrow> n),
                   ro_minSimilarity = Some 0.35, ro_includeFriction = None \<rparr>
               = Some (heuristics r)
          else heuristics r = [])"
    using r by blast
qed

lemma ambiguous_prompt: "detectsAmbiguity ''Should I use async or sync I/O here?''"
  by code_simp

lemma concrete_prompt: "\<not> detectsAmbiguity ''Add a login endpoint''"
  by code_simp

lemma project_heuristics:
  "retrieved_ids (retrieve (constant_embedder (axis_vector 1)) project_store p
              \<lparr> ro_type = Some (OneType Heuristic),
                   ro_limit = Some 3,
                   ro_minSimilarity = Some 0.35, ro_includeFriction = None \<rparr>) = Some [''h1'']"
  by (simp add: project_store_def store_eval retrieve_eval)

text \<open>Witness for C4: without an override, the ambiguous prompt retrieves the
  heuristic and the concrete task retrieves none.\<close>

theorem heuristics_only_when_gated_witness:
  "(\<exists>r. retrieveForContext (constant_embedder (axis_vector 1)) project_store
          ''Should I use async or sync I/O here?''
          \<lparr> maxDecisions = None, maxHeuristics = None, includeHeuristics = None \<rparr> = Some r \<and>
        isAmbiguous r \<and> retrieved_ids (Some (heuristics r)) = Some [''h1'']) \<and>
   (\<exists>r. retrieveForContext (constant_embedder (axis_vector 1)) project_store
          ''Add a login endpoint''
          \<lparr> maxDecisions = None, maxHeuristics = None, includeHeuristics = None \<rparr> = Some r \<and>
        \<not> isAmbiguous r \<and> heuristics r = [])"
proof -
  let ?E = "constant_embedder (axis_vector 1)"
  let ?o = "\<lparr> maxDecisions = None, maxHeuristics = None, includeHeuristics = None \<rparr>"
  have e: "?E p \<noteq> None" for p
    by (simp add: constant_embedder_def)
  from heuristics_only_when_gated [of ?E "''Should I use async or sync I/O here?''"
      project_store ?o] e ambiguous_prompt
  obtain r1 where r1:
    "retrieveForContext ?E project_store ''Should I use async or sync I/O here?'' ?o = Some r1"
    "isAmbiguous r1"
    "retrieve ?E project_store ''Should I use async or sync I/O here?''
       \<lparr> ro_type = Some (OneType Heuristic), ro_limit = Some 3,
         ro_minSimilarity = Some 0.35, ro_includeFriction = None \<rparr> = Some (heuristics r1)"
    by auto
  from heuristics_only_when_gated [of ?E "''Add a login endpoint''" project_store ?o] e concrete_prompt
  obtain r2 where r2:
    "retrieveForContext ?E project_store ''Add a login endpoint'' ?o = Some r2"
    "\<not> isAmbiguous r2" "heuristics r2 = []"
    by auto
  from r1(3) project_heuristics [of "''Should I use async or sync I/O here?''"]
  have "retrieved_ids (Some (heuristics r1)) = Some [''h1'']" by simp
  with r1 r2 show ?thesis by blast
qed

section \<open>Properties of the context builder\<close>

lemma truncate_loop_shape:
  "\<exists>n\<le>length older.
     truncate_loop older maxT tot result = rev (take n older) @ result \<and>
     (0 < n \<longrightarrow> int (tot + history_tokens (take n older)) \<le> maxT) \<and>
     (n < length older \<longrightarrow>
        maxT < int (tot + history_tokens (take n older) + estimateTokens (content (older ! n))))"
proof (induction older arbitrary: tot result)
  case Nil
  then show ?case by simp
next
  case (Cons msg older)
  let ?t = "estimateTokens (content msg)"
  show ?case
  proof (cases "int (tot + ?t) \<le> maxT")
    case False
    then have "truncate_loop (msg # older) maxT tot result = result"
      by (simp add: Let_def)
    with False show ?thesis
      by (intro exI [of _ 0]) (simp add: history_tokens_def)
  next
    case True
    from Cons.IH [of "tot + ?t" "msg # result"] obtain n where n:
      "n \<le> length older"
      "truncate_loop older maxT (tot + ?t) (msg # result) = rev (take n older) @ msg # result"
      "0 < n \<longrightarrow> int (tot + ?t + history_tokens (take n older)) \<le> maxT"
      "n < length older \<longrightarrow>
         maxT < int (tot + ?t + history_tokens (take n older) + estimateTokens (content (older ! n)))"
      by blast
    have run: "truncate_loop (msg # older) maxT tot result
                 = rev (take (Suc n) (msg # older)) @ result"
      using True n(2) by (simp add: Let_def)
    have fit: "int (tot + history_tokens (take (Suc n) (msg # older))) \<le> maxT"
    proof (cases "0 < n")
      case True
      with n(3) show ?thesis by (simp add: history_tokens_def add.assoc)
    next
      case False
      with \<open>int (tot + ?t) \<le> maxT\<close> show ?thesis by (simp add: history_tokens_def)
    qed
    have stop: "Suc n < length (msg # older) \<longrightarrow>
       maxT < int (tot + history_tokens (take (Suc n) (msg # older))
                   + estimateTokens (content ((msg # older) ! Suc n)))"
      using n(4) by (simp add: history_tokens_def add.assoc)
    from n(1) run fit stop show ?thesis
      by (intro exI [of _ "Suc n"]) simp
  qed
qed

lemma truncateHistory_shape:
  "\<exists>k\<le>length history.
     truncateHistory history maxT = drop k history \<and>
     (k < length history \<longrightarrow> int (history_tokens (drop k history)) \<le> maxT) \<and>
     (0 < k \<longrightarrow>
        maxT < int (history_tokens (drop k history) + estimateTokens (content (history ! (k - 1)))))"
proof (cases "history = []")
  case True
  then show ?thesis by (simp add: truncateHistory_def)
next
  case False
  from truncate_loop_shape [of "rev history" maxT 0 "[]"] obtain n where n:
    "n \<le> length history"
    "truncate_loop (rev history) maxT 0 [] = rev (take n (rev history))"
    "0 < n \<longrightarrow> int (history_tokens (take n (rev history))) \<le> maxT"
    "n < length history \<longrightarrow>
       maxT < int (history_tokens (take n (rev history)) + estimateTokens (content (rev history ! n)))"
    by auto
  let ?k = "length history - n"
  have kept: "rev (take n (rev history)) = drop ?k history"
    by (simp add: rev_take)
  have tok_rev: "history_tokens (rev xs) = history_tokens xs" for xs
    by (simp add: history_tokens_def rev_map [symmetric])
  have tok: "history_tokens (take n (rev history)) = history_tokens (drop ?k history)"
    using kept tok_rev [of "take n (rev history)"] by simp
  have nth: "rev history ! n = history ! (?k - 1)" if "n < length history"
    using that by (simp add: rev_nth)
  have "truncateHistory history maxT = drop ?k history"
    using False n(2) kept by (simp add: truncateHistory_def)
  moreover have "?k < length history \<longrightarrow> int (history_tokens (drop ?k history)) \<le> maxT"
    using n(1,3) tok False by auto
  moreover have "0 < ?k \<longrightarrow>
      maxT < int (history_tokens (drop ?k history) + estimateTokens (content (history ! (?k - 1))))"
    using n(4) tok nth by auto
  ultimately show ?thesis
    by (intro exI [of _ ?k]) simp
qed

lemma build_messages:
  "build toFixed0 embedder s config userPrompt history options = Some ctx \<Longrightarrow>
   \<exists>sys. messages ctx =
     \<lparr> role = System, content = sys \<rparr> # truncateHistory history (conversationTokens config) @
     [\<lparr> role = User, content = userPrompt \<rparr>]"
  by (auto simp: build_def Let_def split: option.splits if_splits)

lemma build_None_iff:
  "build toFixed0 embedder s config userPrompt history options = None \<longleftrightarrow>
   includeMemory options \<noteq> Some False \<and> embedder userPrompt = None"
proof (cases "includeMemory options = Some False")
  case True
  then show ?thesis by (simp add: build_def Let_def)
next
  case False
  then have on: "(case includeMemory options of None \<Rightarrow> True | Some b \<Rightarrow> b)"
    by (cases "includeMemory options") auto
  let ?r = "retrieveForContext embedder s userPrompt
              \<lparr> maxDecisions = Some 5, maxHeuristics = Some 3,
                includeHeuristics = forceHeuristics options \<rparr>"
  have "build toFixed0 embedder s config userPrompt history options = None \<longleftrightarrow> ?r = None"
    using on by (cases ?r) (simp_all add: build_def Let_def)
  with False show ?thesis by (simp add: retrieveForContext_None_iff)
qed

text \<open>
  C9. For every history and budget, \<open>truncateHistory\<close> returns a suffix of the history,
  \<open>drop k history\<close>, whose messages are those of the history, whole. If anything is kept,
  the estimate of what is kept is within the budget; if anything is dropped, the newest
  dropped message, \<open>history[k - 1]\<close>, is the first that would have taken the running
  estimate over the budget. \<open>build\<close> fails only when memory is included and the embedding
  provider fails; otherwise its message list is the system message, then the truncated
  history for the budget \<open>conversationTokens\<close>, then the user prompt.
\<close>

theorem truncateHistory_keeps_newest:
  "(\<exists>k\<le>length history.
      truncateHistory history maxT = drop k history \<and>
      suffix (truncateHistory history maxT) history \<and>
      (k < length history \<longrightarrow> int (history_tokens (drop k history)) \<le> maxT) \<and>
      (0 < k \<longrightarrow>
         maxT < int (history_tokens (drop k history)
                      + estimateTokens (content (history ! (k - 1)))))) \<and>
   (build toFixed0 embedder s config userPrompt history options = None
      \<longleftrightarrow> includeMemory options \<noteq> Some False \<and> embedder userPrompt = None) \<and>
   (\<forall>ctx. build toFixed0 embedder s config userPrompt history options = Some ctx \<longrightarrow>
      (\<exists>sys. messages ctx =
         \<lparr> role = System, content = sys \<rparr> #
         truncateHistory history (conversationTokens config) @
         [\<lparr> role = User, content = userPrompt \<rparr>]))"
proof (intro conjI allI impI)
  from truncateHistory_shape [of history maxT] obtain k where k:
    "k \<le> length history" "truncateHistory history maxT = drop k history"
    "k < length history \<longrightarrow> int (history_tokens (drop k history)) \<le> maxT"
    "0 < k \<longrightarrow> maxT < int (history_tokens (drop k history)
                            + estimateTokens (content (history ! (k - 1))))"
    by blast
  have "suffix (drop k history) history" by (rule suffix_drop)
  with k show "\<exists>k\<le>length history.
      truncateHistory history maxT = drop k history \<and>
      suffix (truncateHistory history maxT) history \<and>
      (k < length history \<longrightarrow> int (history_tokens (drop k history)) \<le> maxT) \<and>
      (0 < k \<longrightarrow>
         maxT < int (history_tokens (drop k history)
                      + estimateTokens (content (history ! (k - 1)))))"
    by (intro exI [of _ k]) simp
next
  show "build toFixed0 embedder s config userPrompt history options = None
      \<longleftrightarrow> includeMemory options \<noteq> Some False \<and> embedder userPrompt = None"
    by (rule build_None_iff)
next
  fix ctx
  assume "build toFixed0 embedder s config userPrompt history options = Some ctx"
  then show "\<exists>sys. messages ctx =
         \<lparr> role = System, content = sys \<rparr> #
         truncateHistory history (conversationTokens config) @
         [\<lparr> role = User, content = userPrompt \<rparr>]"
    by (rule build_messages)
qed

text \<open>Witness for C9: three messages of two tokens each and a budget of five; the
  oldest message is dropped.\<close>

theorem truncateHistory_keeps_newest_witness:
  "truncateHistory
     [\<lparr> role = User, content = ''aaaaaaaa'' \<rparr>, \<lparr> role = Assistant, content = ''bbbbbbbb'' \<rparr>,
      \<lparr> role = User, content = ''cccccccc'' \<rparr>] 5
   = [\<lparr> role = Assistant, content = ''bbbbbbbb'' \<rparr>, \<lparr> role = User, content = ''cccccccc'' \<rparr>] \<and>
   (\<exists>ctx sys. build no_digits (constant_embedder (axis_vector 1)) empty_store
        (DEFAULT_CONTEXT_CONFIG\<lparr> conversationTokens := 5 \<rparr>) ''dddd''
        [\<lparr> role = User, content = ''aaaaaaaa'' \<rparr>, \<lparr> role = Assistant, content = ''bbbbbbbb'' \<rparr>,
         \<lparr> role = User, content = ''cccccccc'' \<rparr>]
        \<lparr> includeMemory = Some False, forceHeuristics = None \<rparr> = Some ctx \<and>
      messages ctx =
        [\<lparr> role = System, content = sys \<rparr>,
         \<lparr> role = Assistant, content = ''bbbbbbbb'' \<rparr>, \<lparr> role = User, content = ''cccccccc'' \<rparr>,
         \<lparr> role = User, content = ''dddd'' \<rparr>])"
proof -
  let ?h = "[\<lparr> role = User, content = ''aaaaaaaa'' \<rparr>, \<lparr> role = Assistant, content = ''bbbbbbbb'' \<rparr>,
      \<lparr> role = User, content = ''cccccccc'' \<rparr>]"
  let ?cfg = "DEFAULT_CONTEXT_CONFIG\<lparr> conversationTokens := 5 \<rparr>"
  let ?o = "\<lparr> includeMemory = Some False, forceHeuristics = None \<rparr>"
  have t: "truncateHistory ?h 5
     = [\<lparr> role = Assistant, content = ''bbbbbbbb'' \<rparr>, \<lparr> role = User, content = ''cccccccc'' \<rparr>]"
    by (simp add: truncateHistory_def estimateTokens_def)
  have c: "conversationTokens ?cfg = 5" by simp
  note inst = truncateHistory_keeps_newest
    [of ?h 5 no_digits "constant_embedder (axis_vector 1)" empty_store ?cfg "''dddd''" ?o]
  from inst have "build no_digits (constant_embedder (axis_vector 1)) empty_store ?cfg ''dddd'' ?h ?o \<noteq> None"
    by simp
  then obtain ctx where ctx: "build no_digits (constant_embedder (axis_vector 1)) empty_store ?cfg ''dddd'' ?h ?o = Some ctx"
    by auto
  with inst obtain sys where "messages ctx =
         \<lparr> role = System, content = sys \<rparr> #
         truncateHistory ?h (conversationTokens ?cfg) @ [\<lparr> role = User, content = ''dddd'' \<rparr>]"
    by blast
  with t c ctx show ?thesis by simp
qed

section \<open>Properties of the fallback embedder\<close>

lemma of_char_lt_256: "(of_char c :: nat) < 256"
  by (cases c) (simp add: of_char_def)

lemma lower_char_idem: "lower_char (lower_char c) = lower_char c"
proof -
  have "(of_char c :: nat) < 256" by (rule of_char_lt_256)
  then show ?thesis
    by (auto simp: lower_char_def Let_def)
qed

lemma is_space_lower_char: "is_space (lower_char c) = is_space c"
proof -
  have "(of_char c :: nat) < 256" by (rule of_char_lt_256)
  then show ?thesis
    by (auto simp: lower_char_def is_space_def Let_def)
qed

lemma toLowerCase_idem: "toLowerCase (toLowerCase s) = toLowerCase s"
  by (simp add: toLowerCase_def lower_char_idem)

lemma dropWhile_space_lower:
  "dropWhile is_space (map lower_char s) = map lower_char (dropWhile is_space s)"
  by (induction s) (simp_all add: is_space_lower_char)

lemma trim_toLowerCase: "trim (toLowerCase s) = toLowerCase (trim s)"
  by (simp add: trim_def toLowerCase_def dropWhile_space_lower rev_map)

lemma dropWhile_idem: "dropWhile P (dropWhile P xs) = dropWhile P xs"
  by (induction xs) simp_all

lemma trim_idem: "trim (trim s) = trim s"
proof -
  let ?a = "dropWhile is_space s"
  let ?b = "dropWhile is_space (rev ?a)"
  have "trim s = rev ?b" by (simp add: trim_def)
  show ?thesis
  proof (cases "?b = []")
    case True
    then have t: "trim s = []" unfolding trim_def by simp
    have "trim [] = []" by (simp add: trim_def)
    then show ?thesis unfolding t .
  next
    case False
    then have hb: "\<not> is_space (hd ?b)" by (rule hd_dropWhile)
    have ne: "rev ?a \<noteq> []"
    proof
      assume "rev ?a = []"
      then have "?b = []" by (simp only: dropWhile.simps)
      with False show False by contradiction
    qed
    have "\<exists>ys. rev ?a = ys @ ?b" by (metis takeWhile_dropWhile_id)
    then obtain ys where ys: "rev ?a = ys @ ?b" ..
    then have a: "?a = rev ?b @ rev ys" by (metis rev_append rev_rev_ident)
    have "?a \<noteq> []" using ne by simp
    then have ha: "\<not> is_space (hd ?a)" by (rule hd_dropWhile)
    have "hd ?a = hd (rev ?b)" using a False by (metis hd_append2 rev_is_Nil_conv)
    with ha have "\<not> is_space (hd (rev ?b))" by simp
    then have 1: "dropWhile is_space (rev ?b) = rev ?b"
      using False by (cases "rev ?b") simp_all
    have 2: "dropWhile is_space ?b = ?b"
      using hb False by (cases ?b) simp_all
    show ?thesis by (simp add: trim_def 1 2)
  qed
qed

text \<open>
  C10. For every string \<open>s\<close>, the fallback embedder gives \<open>s\<close> and
  \<open>lowercase(trim(s))\<close> the same embedding: its output does not change with the case of
  letters or with white space at either end, so two texts that differ in these only
  receive the same embedding.
\<close>

theorem embedding_case_and_space_invariant:
  "hashToEmbedding s = hashToEmbedding (toLowerCase (trim s)) \<and>
   SimpleEmbedder_embed s = SimpleEmbedder_embed (toLowerCase (trim s)) \<and>
   (toLowerCase (trim s) = toLowerCase (trim t) \<longrightarrow>
      SimpleEmbedder_embed s = SimpleEmbedder_embed t)"
proof -
  have n: "trim (toLowerCase (toLowerCase (trim u))) = trim (toLowerCase u)" for u
    by (simp add: toLowerCase_idem) (simp add: trim_toLowerCase trim_idem)
  have e: "hashToEmbedding u = hashToEmbedding (toLowerCase (trim u))" for u
    by (simp add: hashToEmbedding_def n)
  have "hashToEmbedding s = hashToEmbedding t" if "toLowerCase (trim s) = toLowerCase (trim t)"
    using e [of s] e [of t] that by simp
  with e [of s] show ?thesis by (simp add: SimpleEmbedder_embed_def)
qed

text \<open>Witness for C10: three spellings of one text.\<close>

theorem embedding_case_and_space_invariant_witness:
  "hashToEmbedding ''  Use TABS '' = hashToEmbedding ''use tabs'' \<and>
   SimpleEmbedder_embed ''  Use TABS '' = SimpleEmbedder_embed ''use Tabs''"
proof -
  have "toLowerCase (trim ''  Use TABS '') = ''use tabs''" by code_simp
  moreover have "toLowerCase (trim ''use Tabs'') = ''use tabs''" by code_simp
  ultimately show ?thesis
    using embedding_case_and_space_invariant [of "''  Use TABS ''" "''use Tabs''"] by metis
qed

end
